theory Spec2Isabelle
  imports Main
begin

section \<open>Tokens (parser/tokens.ts)\<close>

text \<open>
  A JavaScript string is modelled as a \<^typ>\<open>string\<close>: one \<^typ>\<open>char\<close> per code unit,
  for code units below 256.  Every character test of the lexer compares with an ASCII
  character, so the lexer treats all other code units alike (they reach the fallback branch).
\<close>

datatype TokenType = Keyword | Identifier | Number | String | Operator | Comma | OpenParen
  | CloseParen | Semicolon | Dot | Whitespace | Comment | BlockComment | Newline | Backtick
  | Parameter | DollarQuotedString | EOF

record Token =
  type :: TokenType
  "value" :: string
  original :: "string option"

definition mkToken :: "TokenType \<Rightarrow> string \<Rightarrow> Token" where
  "mkToken ty v = \<lparr>type = ty, value = v, original = None\<rparr>"

section \<open>The lexer (parser/tokenizer.ts)\<close>

subsection \<open>Character classes and string helpers\<close>

definition isDigit :: "char \<Rightarrow> bool" where
  "isDigit c = (c \<in> set ''0123456789'')"

definition isDigitOrDot :: "char \<Rightarrow> bool" where
  "isDigitOrDot c = (isDigit c \<or> c = CHR ''.'')"

definition lowerLetters :: string where
  "lowerLetters = ''abcdefghijklmnopqrstuvwxyz''"

definition upperLetters :: string where
  "upperLetters = ''ABCDEFGHIJKLMNOPQRSTUVWXYZ''"

definition isLetterOrUnderscore :: "char \<Rightarrow> bool" where
  "isLetterOrUnderscore c = (c \<in> set lowerLetters \<or> c \<in> set upperLetters \<or> c = CHR ''_'')"

definition isWordChar :: "char \<Rightarrow> bool" where
  "isWordChar c = (isLetterOrUnderscore c \<or> isDigit c)"

definition isSpaceTab :: "char \<Rightarrow> bool" where
  "isSpaceTab c = (c = CHR '' '' \<or> c = CHR 0x09)"

text \<open>
  \<open>toUpperCase\<close> and \<open>toLowerCase\<close> on the ASCII letters.  The lexer applies
  \<open>toUpperCase\<close> to words over \<open>[a-zA-Z0-9_]\<close> only, and the engine applies both to the
  values of keyword tokens only.
\<close>

definition upperChar :: "char \<Rightarrow> char" where
  "upperChar c = (case map_of (zip lowerLetters upperLetters) c of Some u \<Rightarrow> u | None \<Rightarrow> c)"

definition lowerChar :: "char \<Rightarrow> char" where
  "lowerChar c = (case map_of (zip upperLetters lowerLetters) c of Some l \<Rightarrow> l | None \<Rightarrow> c)"

definition toUpperCase :: "string \<Rightarrow> string" where
  "toUpperCase s = map upperChar s"

definition toLowerCase :: "string \<Rightarrow> string" where
  "toLowerCase s = map lowerChar s"

definition startsWith :: "string \<Rightarrow> string \<Rightarrow> bool" where
  "startsWith s p = (take (length p) s = p)"

subsection \<open>The inner scanning loops\<close>

text \<open>
  Each inner \<open>while\<close> loop of the lexer reads the input from the current index on and never
  looks back, so it is a function of the remaining input that returns the text it appended
  and the input left after it.
\<close>

text \<open>Block comment body: up to, not including, the first \<open>*/\<close>.\<close>

fun blockCommentBody :: "string \<Rightarrow> string \<times> string" where
  "blockCommentBody [] = ([], [])"
| "blockCommentBody (c # cs) =
     (if c = CHR ''*'' \<and> startsWith cs ''/'' then ([], c # cs)
      else (case blockCommentBody cs of (b, r) \<Rightarrow> (c # b, r)))"

text \<open>Single-quoted string after the opening quote: a doubled quote stays inside.\<close>

fun stringBody :: "string \<Rightarrow> string \<times> string" where
  "stringBody [] = ([], [])"
| "stringBody (c # cs) =
     (if c = CHR 0x27 \<and> startsWith cs [CHR 0x27] then
        (case stringBody (tl cs) of (b, r) \<Rightarrow> (CHR 0x27 # CHR 0x27 # b, r))
      else if c = CHR 0x27 then ([CHR 0x27], cs)
      else (case stringBody cs of (b, r) \<Rightarrow> (c # b, r)))"

text \<open>Dollar-quoted string after the opening \<open>$$\<close>: up to and including the next \<open>$$\<close>.\<close>

fun dollarBody :: "string \<Rightarrow> string \<times> string" where
  "dollarBody [] = ([], [])"
| "dollarBody (c # cs) =
     (if c = CHR ''$'' \<and> startsWith cs ''$'' then (''$$'', tl cs)
      else (case dollarBody cs of (b, r) \<Rightarrow> (c # b, r)))"

text \<open>Template parameter body: up to, not including, the first \<open>}}\<close>.\<close>

fun jinjaBody :: "string \<Rightarrow> string \<times> string" where
  "jinjaBody [] = ([], [])"
| "jinjaBody (c # cs) =
     (if c = CHR ''}'' \<and> startsWith cs ''}'' then ([], c # cs)
      else (case jinjaBody cs of (b, r) \<Rightarrow> (c # b, r)))"

text \<open>
  A delimited token whose closing delimiter is a single character \<open>q\<close>: the body up to
  \<open>q\<close>, and \<open>q\<close> itself when the input has it.
\<close>

definition untilClose :: "char \<Rightarrow> string \<Rightarrow> string \<times> string" where
  "untilClose q s =
     (let body = takeWhile (\<lambda>c. c \<noteq> q) s; r = dropWhile (\<lambda>c. c \<noteq> q) s
      in if r \<noteq> [] then (body @ [q], tl r) else (body, r))"

text \<open>The scientific-notation suffix of a number.\<close>

definition exponentPart :: "string \<Rightarrow> string \<times> string" where
  "exponentPart s =
     (case s of
        [] \<Rightarrow> ([], [])
      | e # s1 \<Rightarrow>
          if e = CHR ''e'' \<or> e = CHR ''E'' then
            (let (sgn, s2) = (case s1 of
                                [] \<Rightarrow> ([], [])
                              | g # s2' \<Rightarrow> if g = CHR ''+'' \<or> g = CHR ''-'' then ([g], s2')
                                           else ([], s1))
             in (e # sgn @ takeWhile isDigit s2, dropWhile isDigit s2))
          else ([], s))"

definition numberText :: "string \<Rightarrow> string \<times> string" where
  "numberText s =
     (case exponentPart (dropWhile isDigitOrDot s) of
        (ex, r) \<Rightarrow> (takeWhile isDigitOrDot s @ ex, r))"

subsection \<open>One iteration of the main loop\<close>

text \<open>
  \<open>nextToken KEYWORDS ch rest\<close> is the body of the \<open>while (i < input.length)\<close> loop at
  an index where the input still holds \<open>ch # rest\<close>: the token it pushes and the input left
  after it.  \<open>KEYWORDS\<close> is the table of parser/keywords.ts, a parameter of the model.
\<close>

definition startsNumber :: "char \<Rightarrow> string \<Rightarrow> bool" where
  "startsNumber ch rest = (isDigit ch \<or> (ch = CHR ''.'' \<and> rest \<noteq> [] \<and> isDigit (hd rest)))"

definition twoCharOperators :: "string list" where
  "twoCharOperators = [''!='', ''<>'', ''>='', ''<='', ''||'', ''->'']"

definition singleCharOperators :: string where
  "singleCharOperators = ''+-*/%=<>|&^~!''"

definition wordToken :: "string set \<Rightarrow> string \<Rightarrow> Token" where
  "wordToken KEYWORDS word =
     (let upper = toUpperCase word
      in if upper \<in> KEYWORDS then \<lparr>type = Keyword, value = upper, original = Some word\<rparr>
         else mkToken Identifier word)"

definition nextToken :: "string set \<Rightarrow> char \<Rightarrow> string \<Rightarrow> Token \<times> string" where
  "nextToken KEYWORDS ch rest =
     (if ch = CHR '' '' \<or> ch = CHR 0x09 then
        (mkToken Whitespace (takeWhile isSpaceTab (ch # rest)), dropWhile isSpaceTab (ch # rest))
      else if ch = CHR 0x0A \<or> ch = CHR 0x0D then
        (if ch = CHR 0x0D \<and> rest \<noteq> [] \<and> hd rest = CHR 0x0A
         then (mkToken Newline [CHR 0x0D, CHR 0x0A], tl rest)
         else (mkToken Newline [ch], rest))
      else if ch = CHR ''-'' \<and> rest \<noteq> [] \<and> hd rest = CHR ''-'' then
        (mkToken Comment (takeWhile (\<lambda>c. c \<noteq> CHR 0x0A) (ch # rest)),
         dropWhile (\<lambda>c. c \<noteq> CHR 0x0A) (ch # rest))
      else if ch = CHR ''/'' \<and> rest \<noteq> [] \<and> hd rest = CHR ''*'' then
        (case blockCommentBody (tl rest) of
           (b, r) \<Rightarrow> if r \<noteq> [] then (mkToken BlockComment (''/*'' @ b @ ''*/''), drop 2 r)
                     else (mkToken BlockComment (''/*'' @ b), r))
      else if ch = CHR 0x27 then
        (case stringBody rest of (b, r) \<Rightarrow> (mkToken String (CHR 0x27 # b), r))
      else if ch = CHR 0x22 then
        (case untilClose (CHR 0x22) rest of (b, r) \<Rightarrow> (mkToken Identifier (CHR 0x22 # b), r))
      else if ch = CHR 0x60 then
        (case untilClose (CHR 0x60) rest of (b, r) \<Rightarrow> (mkToken Backtick (CHR 0x60 # b), r))
      else if startsNumber ch rest then
        (case numberText (ch # rest) of (num, r) \<Rightarrow> (mkToken Number num, r))
      else if ch = CHR ''('' then (mkToken OpenParen ''('', rest)
      else if ch = CHR '')'' then (mkToken CloseParen '')'', rest)
      else if ch = CHR '','' then (mkToken Comma '','', rest)
      else if ch = CHR '';'' then (mkToken Semicolon '';'', rest)
      else if ch = CHR ''.'' then (mkToken Dot ''.'', rest)
      else if take 2 (ch # rest) \<in> set twoCharOperators then
        (mkToken Operator (take 2 (ch # rest)), drop 2 (ch # rest))
      else if ch \<in> set singleCharOperators then (mkToken Operator [ch], rest)
      else if ch = CHR ''$'' \<and> rest \<noteq> [] \<and> hd rest = CHR ''$'' then
        (case dollarBody (tl rest) of (b, r) \<Rightarrow> (mkToken DollarQuotedString (''$$'' @ b), r))
      else if ch = CHR ''$'' \<and> rest \<noteq> [] \<and> hd rest = CHR ''{'' then
        (case untilClose (CHR ''}'') (tl rest) of (b, r) \<Rightarrow> (mkToken Parameter (''${'' @ b), r))
      else if ch = CHR ''{'' \<and> rest \<noteq> [] \<and> hd rest = CHR ''{'' then
        (case jinjaBody (tl rest) of
           (b, r) \<Rightarrow> if r \<noteq> [] then (mkToken Parameter (''{{'' @ b @ ''}}''), drop 2 r)
                     else (mkToken Parameter (''{{'' @ b), r))
      else if ch = CHR '':'' \<or> ch = CHR ''@'' then
        (mkToken Parameter (ch # takeWhile isWordChar rest), dropWhile isWordChar rest)
      else if isLetterOrUnderscore ch then
        (wordToken KEYWORDS (takeWhile isWordChar (ch # rest)), dropWhile isWordChar (ch # rest))
      else (mkToken Operator [ch], rest))"

text \<open>What a token stands for in the input: the original casing when the token has one.\<close>

definition sourceText :: "Token \<Rightarrow> string" where
  "sourceText t = (case original t of Some w \<Rightarrow> w | None \<Rightarrow> value t)"

lemma blockCommentBody_append: "fst (blockCommentBody s) @ snd (blockCommentBody s) = s"
  by (induction s) (auto split: prod.splits)

lemma blockCommentBody_rest:
  "snd (blockCommentBody s) \<noteq> [] \<Longrightarrow> take 2 (snd (blockCommentBody s)) = ''*/''"
  by (induction s) (auto simp: startsWith_def split: prod.splits if_splits list.splits)

lemma jinjaBody_append: "fst (jinjaBody s) @ snd (jinjaBody s) = s"
  by (induction s) (auto split: prod.splits)

lemma jinjaBody_rest:
  "snd (jinjaBody s) \<noteq> [] \<Longrightarrow> take 2 (snd (jinjaBody s)) = ''}}''"
  by (induction s) (auto simp: startsWith_def split: prod.splits if_splits list.splits)

lemma stringBody_append: "fst (stringBody s) @ snd (stringBody s) = s"
proof (induction s rule: stringBody.induct)
  case 1
  show ?case by simp
next
  case (2 c cs)
  show ?case
  proof (cases "c = CHR 0x27 \<and> startsWith cs [CHR 0x27]")
    case True
    then obtain cs' where cs: "cs = CHR 0x27 # cs'"
      by (cases cs) (auto simp: startsWith_def)
    from 2(1)[OF True] True cs show ?thesis
      by (simp add: startsWith_def split_beta)
  next
    case False
    with 2(2) show ?thesis
      by (cases "c = CHR 0x27") (auto split: prod.splits)
  qed
qed

lemma dollarBody_append: "fst (dollarBody s) @ snd (dollarBody s) = s"
proof (induction s rule: dollarBody.induct)
  case 1
  show ?case by simp
next
  case (2 c cs)
  show ?case
  proof (cases "c = CHR ''$'' \<and> startsWith cs ''$''")
    case True
    then obtain cs' where cs: "cs = CHR ''$'' # cs'"
      by (cases cs) (auto simp: startsWith_def)
    from True cs show ?thesis
      by (simp add: startsWith_def)
  next
    case False
    with 2 show ?thesis
      by (auto split: prod.splits)
  qed
qed

lemma untilClose_append: "fst (untilClose q s) @ snd (untilClose q s) = s"
proof (cases "dropWhile (\<lambda>c. c \<noteq> q) s")
  case Nil
  then show ?thesis
    using takeWhile_dropWhile_id [of "\<lambda>c. c \<noteq> q" s]
    by (simp add: untilClose_def Let_def)
next
  case (Cons d r)
  then have "d = q"
    by (metis (mono_tags, lifting) hd_dropWhile list.discI list.sel(1))
  with Cons show ?thesis
    using takeWhile_dropWhile_id [of "\<lambda>c. c \<noteq> q" s]
    by (simp add: untilClose_def Let_def)
qed

lemma exponentPart_append: "fst (exponentPart s) @ snd (exponentPart s) = s"
  by (auto simp: exponentPart_def Let_def split: list.splits prod.splits)

lemma numberText_append: "fst (numberText s) @ snd (numberText s) = s"
proof -
  have "takeWhile isDigitOrDot s @ fst (exponentPart (dropWhile isDigitOrDot s))
          @ snd (exponentPart (dropWhile isDigitOrDot s)) = s"
    by (simp add: exponentPart_append)
  then show ?thesis
    by (simp add: numberText_def split_beta)
qed

lemma blockCommentBody_split: "blockCommentBody s = (b, r) \<Longrightarrow> b @ r = s"
  using blockCommentBody_append [of s] by simp

lemma blockComment_closed:
  "blockCommentBody s = (b, r) \<Longrightarrow> r \<noteq> [] \<Longrightarrow> b @ CHR ''*'' # CHR ''/'' # drop 2 r = s"
  using blockCommentBody_split [of s b r] blockCommentBody_rest [of s]
    append_take_drop_id [of 2 r] by simp

lemma jinjaBody_split: "jinjaBody s = (b, r) \<Longrightarrow> b @ r = s"
  using jinjaBody_append [of s] by simp

lemma jinja_closed:
  "jinjaBody s = (b, r) \<Longrightarrow> r \<noteq> [] \<Longrightarrow> b @ CHR ''}'' # CHR ''}'' # drop 2 r = s"
  using jinjaBody_split [of s b r] jinjaBody_rest [of s] append_take_drop_id [of 2 r] by simp

lemma stringBody_split: "stringBody s = (b, r) \<Longrightarrow> b @ r = s"
  using stringBody_append [of s] by simp

lemma dollarBody_split: "dollarBody s = (b, r) \<Longrightarrow> b @ r = s"
  using dollarBody_append [of s] by simp

lemma untilClose_split: "untilClose q s = (b, r) \<Longrightarrow> b @ r = s"
  using untilClose_append [of q s] by simp

lemma numberText_split: "numberText s = (b, r) \<Longrightarrow> b @ r = s"
  using numberText_append [of s] by simp

lemma numberText_nonempty:
  "startsNumber ch rest \<Longrightarrow> numberText (ch # rest) = (b, r) \<Longrightarrow> b \<noteq> []"
  by (auto simp: numberText_def startsNumber_def isDigitOrDot_def split: prod.splits)

lemma sourceText_mkToken [simp]: "sourceText (mkToken ty v) = v"
  by (simp add: sourceText_def mkToken_def)

lemma sourceText_wordToken [simp]: "sourceText (wordToken K w) = w"
  by (simp add: sourceText_def wordToken_def mkToken_def Let_def)

text \<open>
  An iteration at \<open>ch # rest\<close> consumes a non-empty prefix of the input, and the token it
  pushes stands for exactly that prefix.
\<close>

definition consumes :: "char \<Rightarrow> string \<Rightarrow> Token \<times> string \<Rightarrow> bool" where
  "consumes ch rest x = (sourceText (fst x) @ snd x = ch # rest \<and> sourceText (fst x) \<noteq> [])"

lemma consumes_if:
  "(c \<Longrightarrow> consumes ch rest a) \<Longrightarrow> (\<not> c \<Longrightarrow> consumes ch rest b)
    \<Longrightarrow> consumes ch rest (if c then a else b)"
  by simp

lemma consumes_nextToken: "consumes ch rest (nextToken K ch rest)"
proof (cases rest)
  case Nil
  show ?thesis
    unfolding nextToken_def Nil
    apply (intro consumes_if)
    apply (auto simp: consumes_def isSpaceTab_def isWordChar_def
        simp del: stringBody.simps dollarBody.simps blockCommentBody.simps jinjaBody.simps
        split: prod.splits
        dest: blockCommentBody_split jinjaBody_split numberText_nonempty
          stringBody_split dollarBody_split untilClose_split numberText_split)
    done
next
  case (Cons d ds)
  show ?thesis
    unfolding nextToken_def Cons
    apply (intro consumes_if)
    apply (auto simp: consumes_def isSpaceTab_def isWordChar_def
        simp del: stringBody.simps dollarBody.simps blockCommentBody.simps jinjaBody.simps
        split: prod.splits
        dest: blockCommentBody_split blockComment_closed jinjaBody_split jinja_closed
          stringBody_split dollarBody_split untilClose_split numberText_split numberText_nonempty)
    done
qed

lemma nextToken_lossless: "nextToken K ch rest = (t, r) \<Longrightarrow> sourceText t @ r = ch # rest"
  using consumes_nextToken [of ch rest K] by (simp add: consumes_def)

lemma nextToken_shorter: "nextToken K ch rest = (t, r) \<Longrightarrow> length r \<le> length rest"
proof -
  assume nt: "nextToken K ch rest = (t, r)"
  with consumes_nextToken [of ch rest K]
  have "sourceText t @ r = ch # rest" and "sourceText t \<noteq> []"
    by (simp_all add: consumes_def)
  then have "length (sourceText t) + length r = Suc (length rest)" and "0 < length (sourceText t)"
    by (metis length_append length_Cons, simp)
  then show ?thesis by arith
qed

subsection \<open>The main loop and \<open>tokenize\<close>\<close>

text \<open>
  \<open>scan\<close> is the \<open>while (i < input.length)\<close> loop on the input from index \<open>i\<close> on; it
  ends because every iteration consumes at least one character.
\<close>

function scan :: "string set \<Rightarrow> string \<Rightarrow> Token list" where
  "scan KEYWORDS [] = []"
| "scan KEYWORDS (ch # rest) = (case nextToken KEYWORDS ch rest of (t, r) \<Rightarrow> t # scan KEYWORDS r)"
  by pat_completeness auto
termination
  by (relation "measure (\<lambda>(K, s). length s)")
    (auto dest: nextToken_shorter [OF sym] simp: less_Suc_eq_le)

definition tokenize :: "string set \<Rightarrow> string \<Rightarrow> Token list" where
  "tokenize KEYWORDS input = scan KEYWORDS input @ [mkToken EOF []]"

text \<open>
  Modelled from the spec: parser/keywords.ts is not among the sources.  The tables below hold
  keywords that the spec names, the clause keywords of its glossary, and compound clause
  keywords that the spec's scenarios and the repository's tests show at the start of a line.
  They are used only where a statement needs a concrete table; every general theorem is about
  arbitrary tables.
\<close>

definition specKEYWORDS :: "string set" where
  "specKEYWORDS = set [''SELECT'', ''FROM'', ''WHERE'', ''JOIN'', ''ON'', ''GROUP'', ''BY'',
     ''ORDER'', ''LEFT'', ''RIGHT'', ''FULL'', ''INNER'', ''CROSS'', ''OUTER'', ''SEMI'', ''ANTI'',
     ''NOT'', ''IN'', ''UNION'', ''ALL'', ''DISTINCT'', ''INSERT'', ''INTO'', ''OVERWRITE'',
     ''MERGE'', ''USING'', ''MATCHED'', ''THEN'', ''UPDATE'', ''SET'', ''CASE'', ''WHEN'', ''ELSE'',
     ''END'', ''CREATE'', ''ALTER'', ''DROP'', ''TABLE'', ''VIEW'', ''FUNCTION'', ''AS'',
     ''TBLPROPERTIES'', ''COMMENT'', ''CONCAT'', ''CONCAT_WS'', ''COALESCE'', ''OVER'',
     ''PARTITION'', ''LANGUAGE'', ''TIMESTAMP'']"

definition specCLAUSE_KEYWORDS :: "string set" where
  "specCLAUSE_KEYWORDS = set [''SELECT'', ''FROM'', ''WHERE'', ''JOIN'', ''ON'', ''WHEN'',
     ''GROUP BY'', ''ORDER BY'', ''PARTITION BY'', ''LEFT JOIN'', ''LEFT OUTER JOIN'',
     ''MERGE INTO'']"

section \<open>Format options (formatter/options.ts)\<close>

datatype KeywordCase = Upper | Lower | Preserve

datatype CommaPosition = Leading | Trailing

text \<open>
  \<open>indentSize\<close> is a JavaScript number; the model covers its integer values, negative ones
  included.
\<close>

record FormatOptions =
  indentSize :: int
  keywordCase :: KeywordCase
  commaPosition :: CommaPosition

definition DEFAULT_OPTIONS :: FormatOptions where
  "DEFAULT_OPTIONS = \<lparr>indentSize = 2, keywordCase = Upper, commaPosition = Trailing\<rparr>"

section \<open>The keyword-merge passes (formatter/formatter.ts)\<close>

definition isSkippable :: "Token \<Rightarrow> bool" where
  "isSkippable t = (type t = Whitespace \<or> type t = Newline)"

definition mergeables :: "(string \<times> string list) list" where
  "mergeables =
     [(''GROUP'', [''BY'']),
      (''ORDER'', [''BY'']),
      (''DISTRIBUTE'', [''BY'']),
      (''SORT'', [''BY'']),
      (''CLUSTER'', [''BY'']),
      (''PARTITION'', [''BY'']),
      (''INSERT'', [''INTO'', ''OVERWRITE'']),
      (''MERGE'', [''INTO'']),
      (''LEFT'', [''JOIN'', ''OUTER JOIN'', ''SEMI JOIN'', ''ANTI JOIN'']),
      (''RIGHT'', [''JOIN'', ''OUTER JOIN'']),
      (''FULL'', [''JOIN'', ''OUTER JOIN'']),
      (''INNER'', [''JOIN'']),
      (''CROSS'', [''JOIN'']),
      (''NOT'', [''IN'']),
      (''UNION'', [''ALL'']),
      (''LATERAL'', [''VIEW'']),
      (''ZORDER'', [''BY'']),
      (''FULL OUTER'', [''JOIN'']),
      (''LEFT OUTER'', [''JOIN'']),
      (''RIGHT OUTER'', [''JOIN'']),
      (''LEFT SEMI'', [''JOIN'']),
      (''LEFT ANTI'', [''JOIN''])]"

text \<open>\<open>s.split(d)\<close> for a one-character separator \<open>d\<close>.\<close>

fun splitOn :: "char \<Rightarrow> string \<Rightarrow> string list" where
  "splitOn d [] = [[]]"
| "splitOn d (c # cs) =
     (if c = d then [] # splitOn d cs
      else (case splitOn d cs of w # ws \<Rightarrow> (c # w) # ws | [] \<Rightarrow> [[c]]))"

text \<open>
  The loop over the parts of one suffix, from index \<open>j\<close> on: \<open>Some\<close> of the tokens after the
  last consumed one when every part matched, \<open>None\<close> when a part did not.
\<close>

fun matchParts :: "string list \<Rightarrow> Token list \<Rightarrow> Token list option" where
  "matchParts [] ts = Some ts"
| "matchParts (part # parts) ts =
     (case dropWhile isSkippable ts of
        [] \<Rightarrow> None
      | t # r \<Rightarrow> if type t = Keyword \<and> value t = part then matchParts parts r else None)"

text \<open>The loop over the suffixes of one keyword: the first suffix that matches.\<close>

fun firstMatch :: "string list \<Rightarrow> Token list \<Rightarrow> (string \<times> Token list) option" where
  "firstMatch [] ts = None"
| "firstMatch (suffix # suffixes) ts =
     (case matchParts (splitOn CHR '' '' suffix) ts of
        Some r \<Rightarrow> Some (suffix, r)
      | None \<Rightarrow> firstMatch suffixes ts)"

lemma matchParts_length: "matchParts parts ts = Some r \<Longrightarrow> length r \<le> length ts"
proof (induction parts arbitrary: ts)
  case Nil
  then show ?case by simp
next
  case (Cons part parts)
  from Cons.prems obtain t r' where d: "dropWhile isSkippable ts = t # r'"
    and m: "matchParts parts r' = Some r"
    by (auto split: list.splits if_splits)
  have "length (dropWhile isSkippable ts) \<le> length ts"
    by (rule length_dropWhile_le)
  with d Cons.IH [OF m] show ?case by simp
qed

lemma firstMatch_length: "firstMatch suffixes ts = Some (suffix, r) \<Longrightarrow> length r \<le> length ts"
  by (induction suffixes) (auto split: option.splits dest: matchParts_length)

function mergeClauseKeywords :: "Token list \<Rightarrow> Token list" where
  "mergeClauseKeywords [] = []"
| "mergeClauseKeywords (t # ts) =
     (if type t = Keyword then
        (case map_of mergeables (value t) of
           Some suffixes \<Rightarrow>
             (case firstMatch suffixes ts of
                Some (suffix, r) \<Rightarrow>
                  \<lparr>type = Keyword, value = value t @ '' '' @ suffix, original = original t\<rparr>
                    # mergeClauseKeywords r
              | None \<Rightarrow> t # mergeClauseKeywords ts)
         | None \<Rightarrow> t # mergeClauseKeywords ts)
      else t # mergeClauseKeywords ts)"
  by pat_completeness auto
termination
  by (relation "measure length") (auto dest: firstMatch_length simp: less_Suc_eq_le)

text \<open>
  White space in the sense of JavaScript's \<open>\s\<close> and \<open>trim\<close>, among the code units below
  256: tab, line feed, vertical tab, form feed, carriage return, space, no-break space.
\<close>

definition isJsSpace :: "char \<Rightarrow> bool" where
  "isJsSpace c = (c \<in> set [CHR 0x09, CHR 0x0A, CHR 0x0B, CHR 0x0C, CHR 0x0D, CHR 0x20, CHR 0xA0])"

definition trimEnd :: "string \<Rightarrow> string" where
  "trimEnd s = rev (dropWhile isJsSpace (rev s))"

definition trim :: "string \<Rightarrow> string" where
  "trim s = trimEnd (dropWhile isJsSpace s)"

definition bodyText :: "Token \<Rightarrow> string" where
  "bodyText t =
     (if type t = Newline then value t
      else if type t = Whitespace then value t
      else (case original t of Some w \<Rightarrow> w | None \<Rightarrow> value t))"

definition endsBody :: "Token \<Rightarrow> bool" where
  "endsBody t = (type t = Semicolon \<or> type t = EOF)"

function mergeUnquotedLanguageBody :: "Token list \<Rightarrow> Token list" where
  "mergeUnquotedLanguageBody [] = []"
| "mergeUnquotedLanguageBody (t # ts) =
     (if type t \<noteq> Keyword \<or> value t \<noteq> ''LANGUAGE'' then t # mergeUnquotedLanguageBody ts
      else
        (case dropWhile isSkippable ts of
           [] \<Rightarrow> t # mergeUnquotedLanguageBody ts
         | langId # afterLang \<Rightarrow>
             if type langId \<noteq> Identifier \<and> type langId \<noteq> Keyword
             then t # mergeUnquotedLanguageBody ts
             else
               (case dropWhile isSkippable afterLang of
                  [] \<Rightarrow> t # mergeUnquotedLanguageBody ts
                | asTok # afterAs \<Rightarrow>
                    if type asTok \<noteq> Keyword \<or> value asTok \<noteq> ''AS''
                    then t # mergeUnquotedLanguageBody ts
                    else
                      (case dropWhile isSkippable afterAs of
                         [] \<Rightarrow> t # mergeUnquotedLanguageBody ts
                       | b # _ \<Rightarrow>
                           if type b = DollarQuotedString \<or> type b = String
                           then t # mergeUnquotedLanguageBody ts
                           else
                             (let header = t # takeWhile isSkippable ts @ [langId]
                                    @ takeWhile isSkippable afterLang @ [asTok];
                                  body = concat (map bodyText
                                    (takeWhile (\<lambda>x. \<not> endsBody x) afterAs));
                                  trimmed = trimEnd body
                              in header
                                 @ (if trimmed \<noteq> [] then [mkToken DollarQuotedString trimmed]
                                    else [])
                                 @ mergeUnquotedLanguageBody
                                     (dropWhile (\<lambda>x. \<not> endsBody x) afterAs))))))"
  by pat_completeness auto
termination
proof (relation "measure length", goal_cases)
  case 1
  show ?case by simp
next
  case (2 t ts)
  show ?case by simp
next
  case (3 t ts)
  show ?case by simp
next
  case (4 t ts langId afterLang)
  show ?case by simp
next
  case (5 t ts langId afterLang)
  show ?case by simp
next
  case (6 t ts langId afterLang asTok afterAs)
  show ?case by simp
next
  case (7 t ts langId afterLang asTok afterAs)
  show ?case by simp
next
  case (8 t ts langId afterLang asTok afterAs b bs)
  show ?case by simp
next
  case (9 t ts langId afterLang asTok afterAs b bs header body trimmed)
  have "length (dropWhile (\<lambda>x. \<not> endsBody x) afterAs) \<le> length afterAs"
    by (rule length_dropWhile_le)
  moreover have "length afterAs < length (dropWhile isSkippable afterLang)"
    using 9(4) by simp
  moreover have "length (dropWhile isSkippable afterLang) \<le> length afterLang"
    by (rule length_dropWhile_le)
  moreover have "length afterLang < length (dropWhile isSkippable ts)"
    using 9(2) by simp
  moreover have "length (dropWhile isSkippable ts) \<le> length ts"
    by (rule length_dropWhile_le)
  ultimately show ?case by simp
qed

section \<open>The format engine (formatter/formatter.ts)\<close>

subsection \<open>Errors and engine state\<close>

text \<open>
  The one operation of the pipeline that can throw is \<open>' '.repeat(count)\<close>, which raises a
  \<open>RangeError\<close> for a negative count.  Every function that calls it returns a sum,
  with \<open>Inl\<close> for the exception.
\<close>

datatype error = RangeError

definition andThen :: "error + 'a \<Rightarrow> ('a \<Rightarrow> error + 'b) \<Rightarrow> error + 'b" where
  "andThen m f = (case m of Inl e \<Rightarrow> Inl e | Inr x \<Rightarrow> f x)"

definition repeatSpace :: "int \<Rightarrow> error + string" where
  "repeatSpace count = (if count < 0 then Inl RangeError else Inr (replicate (nat count) CHR '' ''))"

text \<open>The paren kinds \<open>'subquery' | 'grouping' | 'block' | 'concat'\<close>.\<close>

datatype ParenType = subquery | grouping | block | concatParen

text \<open>
  The mutable variables of \<open>formatDatabricksSQL\<close>.  \<open>result\<close> is the array of pushed
  pieces (the code tests \<open>result.length\<close>, which counts pieces, not characters).  Both stacks
  have their top at the head of the list.
\<close>

record State =
  result :: "string list"
  indentLevel :: int
  lineStart :: bool
  statementStart :: bool
  parenStack :: "ParenType list"
  caseStack :: "int list"
  prevMeaningful :: "Token option"
  ddlContext :: bool
  blockParenPending :: bool
  functionContext :: bool
  afterBlockClose :: bool
  needNewlineBeforeFirstColumn :: bool

definition initialState :: State where
  "initialState =
     \<lparr>result = [], indentLevel = 0, lineStart = True, statementStart = True, parenStack = [],
      caseStack = [], prevMeaningful = None, ddlContext = False, blockParenPending = False,
      functionContext = False, afterBlockClose = False, needNewlineBeforeFirstColumn = False\<rparr>"

definition push :: "string \<Rightarrow> State \<Rightarrow> State" where
  "push piece st = st\<lparr>result := result st @ [piece]\<rparr>"

definition indent :: "FormatOptions \<Rightarrow> State \<Rightarrow> error + string" where
  "indent opts st = repeatSpace (indentSize opts * indentLevel st)"

text \<open>\<open>indent() + ' '.repeat(opts.indentSize)\<close>\<close>

definition indentPlus :: "FormatOptions \<Rightarrow> State \<Rightarrow> error + string" where
  "indentPlus opts st =
     andThen (indent opts st) (\<lambda>ind. andThen (repeatSpace (indentSize opts)) (\<lambda>ex. Inr (ind @ ex)))"

definition applyCase :: "FormatOptions \<Rightarrow> Token \<Rightarrow> string" where
  "applyCase opts token =
     (if type token \<noteq> Keyword then value token
      else (case keywordCase opts of
              Upper \<Rightarrow> toUpperCase (value token)
            | Lower \<Rightarrow> toLowerCase (value token)
            | Preserve \<Rightarrow> (case original token of
                             Some w \<Rightarrow> if w \<noteq> [] then w else value token
                           | None \<Rightarrow> value token)))"

definition topParen :: "State \<Rightarrow> ParenType option" where
  "topParen st = (case parenStack st of [] \<Rightarrow> None | p # _ \<Rightarrow> Some p)"

definition prevType :: "State \<Rightarrow> TokenType \<Rightarrow> bool" where
  "prevType st ty = (case prevMeaningful st of Some p \<Rightarrow> type p = ty | None \<Rightarrow> False)"

definition prevKeyword :: "State \<Rightarrow> string \<Rightarrow> bool" where
  "prevKeyword st v =
     (case prevMeaningful st of Some p \<Rightarrow> type p = Keyword \<and> value p = v | None \<Rightarrow> False)"

definition CONCAT_FUNCTIONS :: "string set" where
  "CONCAT_FUNCTIONS = {''CONCAT'', ''CONCAT_WS''}"

definition NON_FUNCTION_KEYWORDS :: "string set" where
  "NON_FUNCTION_KEYWORDS = {''IN'', ''NOT IN''}"

subsection \<open>Lookahead\<close>

text \<open>
  The lookahead helpers take the token array and the index after the current token; here
  they take the tokens from that index on.
\<close>

fun countTopLevelArgsFrom :: "Token list \<Rightarrow> nat \<Rightarrow> nat \<Rightarrow> nat" where
  "countTopLevelArgsFrom [] depth commas = commas + 1"
| "countTopLevelArgsFrom (t # ts) depth commas =
     (if type t = Whitespace \<or> type t = Newline then countTopLevelArgsFrom ts depth commas
      else if type t = OpenParen then countTopLevelArgsFrom ts (depth + 1) commas
      else if type t = CloseParen then
        (if depth = 0 then commas + 1 else countTopLevelArgsFrom ts (depth - 1) commas)
      else if type t = Comma \<and> depth = 0 then countTopLevelArgsFrom ts depth (commas + 1)
      else countTopLevelArgsFrom ts depth commas)"

definition countTopLevelArgs :: "Token list \<Rightarrow> nat" where
  "countTopLevelArgs ts = countTopLevelArgsFrom ts 0 0"

fun countSelectColumnsFrom :: "string set \<Rightarrow> Token list \<Rightarrow> nat \<Rightarrow> nat \<Rightarrow> nat" where
  "countSelectColumnsFrom CLAUSE_KEYWORDS [] depth commas = commas + 1"
| "countSelectColumnsFrom CLAUSE_KEYWORDS (t # ts) depth commas =
     (if type t = Whitespace \<or> type t = Newline
      then countSelectColumnsFrom CLAUSE_KEYWORDS ts depth commas
      else if type t = EOF then commas + 1
      else if type t = OpenParen then countSelectColumnsFrom CLAUSE_KEYWORDS ts (depth + 1) commas
      else if type t = CloseParen then
        (if depth = 0 then commas + 1
         else countSelectColumnsFrom CLAUSE_KEYWORDS ts (depth - 1) commas)
      else if depth = 0 then
        (if type t = Semicolon then commas + 1
         else if type t = Keyword \<and> value t \<in> CLAUSE_KEYWORDS then commas + 1
         else if type t = Comma then countSelectColumnsFrom CLAUSE_KEYWORDS ts depth (commas + 1)
         else countSelectColumnsFrom CLAUSE_KEYWORDS ts depth commas)
      else countSelectColumnsFrom CLAUSE_KEYWORDS ts depth commas)"

definition countSelectColumns :: "string set \<Rightarrow> Token list \<Rightarrow> nat" where
  "countSelectColumns CLAUSE_KEYWORDS ts = countSelectColumnsFrom CLAUSE_KEYWORDS ts 0 0"

definition findNextNonWhitespace :: "Token list \<Rightarrow> Token option" where
  "findNextNonWhitespace ts = find (\<lambda>t. type t \<noteq> Whitespace \<and> type t \<noteq> Newline) ts"

definition findNextMeaningful :: "Token list \<Rightarrow> Token option" where
  "findNextMeaningful ts =
     find (\<lambda>t. type t \<noteq> Whitespace \<and> type t \<noteq> Newline \<and> type t \<noteq> Comment
            \<and> type t \<noteq> BlockComment) ts"

subsection \<open>The handlers of the main loop, in source order\<close>

text \<open>
  The indentation of content: \<open>indent()\<close> at the start of a statement and directly inside a
  block or concat paren, one level more elsewhere.
\<close>

definition contentIndent :: "FormatOptions \<Rightarrow> State \<Rightarrow> error + string" where
  "contentIndent opts st =
     (if statementStart st \<or> topParen st = Some block \<or> topParen st = Some concatParen
      then indent opts st else indentPlus opts st)"

definition caseIndent :: "FormatOptions \<Rightarrow> State \<Rightarrow> error + string" where
  "caseIndent opts st =
     (if statementStart st \<or> topParen st = Some block
      then indent opts st else indentPlus opts st)"

definition commentIndent ::
    "string set \<Rightarrow> FormatOptions \<Rightarrow> Token option \<Rightarrow> State \<Rightarrow> error + string" where
  "commentIndent CLAUSE_KEYWORDS opts nextMeaningful st =
     (case nextMeaningful of
        None \<Rightarrow> contentIndent opts st
      | Some nm \<Rightarrow>
          if type nm = Keyword then
            (let val = value nm
             in if (val = ''WHEN'' \<or> val = ''ELSE'') \<and> caseStack st \<noteq> [] then indentPlus opts st
                else if val = ''END'' \<and> caseStack st \<noteq> [] then indent opts st
                else if val = ''ON'' then indentPlus opts st
                else if val \<in> CLAUSE_KEYWORDS then indent opts st
                else if val = ''CASE'' then caseIndent opts st
                else contentIndent opts st)
          else contentIndent opts st)"

definition handleComment ::
    "string set \<Rightarrow> FormatOptions \<Rightarrow> Token \<Rightarrow> Token list \<Rightarrow> State \<Rightarrow> error + State" where
  "handleComment CLAUSE_KEYWORDS opts token rest st0 =
     (let st1 = (if \<not> lineStart st0 then (push ''\<newline>'' st0)\<lparr>lineStart := True\<rparr> else st0);
          needsBlankLine = (result st1 \<noteq> [] \<and> \<not> statementStart st1
            \<and> \<not> prevType st1 Comma
            \<and> \<not> (prevType st1 Comment \<or> prevType st1 BlockComment)
            \<and> \<not> prevType st1 OpenParen
            \<and> \<not> prevKeyword st1 ''CASE'');
          st2 = (if needsBlankLine then push ''\<newline>'' st1 else st1)
      in andThen (commentIndent CLAUSE_KEYWORDS opts (findNextMeaningful rest) st2)
           (\<lambda>ci. Inr ((push ''\<newline>'' (push (ci @ value token) st2))
                         \<lparr>lineStart := True, prevMeaningful := Some token\<rparr>)))"

definition trackDdl :: "Token \<Rightarrow> State \<Rightarrow> State" where
  "trackDdl token st =
     (if type token = Keyword then
        (let val = value token;
             st1 = (if val = ''CREATE'' \<or> val = ''ALTER'' \<or> val = ''DROP''
                    then st\<lparr>ddlContext := True\<rparr>
                    else if (val = ''TABLE'' \<or> val = ''VIEW'') \<and> ddlContext st
                    then st\<lparr>blockParenPending := True\<rparr>
                    else if val = ''FUNCTION'' \<and> ddlContext st
                    then st\<lparr>functionContext := True\<rparr>
                    else if val = ''AS'' \<and> ddlContext st
                    then st\<lparr>blockParenPending := False, ddlContext := False\<rparr>
                    else st)
         in if val = ''TBLPROPERTIES'' then st1\<lparr>blockParenPending := True\<rparr> else st1)
      else st)"

definition handleSemicolon :: "Token \<Rightarrow> State \<Rightarrow> State" where
  "handleSemicolon token st =
     (push '';\<newline>\<newline>'' st)
       \<lparr>indentLevel := 0, lineStart := True, statementStart := True, ddlContext := False,
        blockParenPending := False, functionContext := False, afterBlockClose := False,
        caseStack := [], needNewlineBeforeFirstColumn := False, prevMeaningful := Some token\<rparr>"

definition isFunctionCall :: "string set \<Rightarrow> State \<Rightarrow> bool" where
  "isFunctionCall CLAUSE_KEYWORDS st =
     (case prevMeaningful st of
        None \<Rightarrow> False
      | Some p \<Rightarrow> type p = Identifier \<or> type p = Backtick
          \<or> (type p = Keyword \<and> value p \<notin> CLAUSE_KEYWORDS \<and> value p \<notin> NON_FUNCTION_KEYWORDS))"

text \<open>
  The start of an inline or concat paren at the start of a line:
  \<open>indent() + (statementStart ? '' : ' '.repeat(opts.indentSize))\<close>, then
  \<open>statementStart = false\<close>.
\<close>

definition parenLineStart :: "FormatOptions \<Rightarrow> State \<Rightarrow> error + State" where
  "parenLineStart opts st =
     andThen (if statementStart st then indent opts st else indentPlus opts st)
       (\<lambda>ind. Inr ((push ind st)\<lparr>statementStart := False\<rparr>))"

definition handleOpenParen ::
    "string set \<Rightarrow> FormatOptions \<Rightarrow> Token \<Rightarrow> Token list \<Rightarrow> State \<Rightarrow> error + State" where
  "handleOpenParen CLAUSE_KEYWORDS opts token rest st0 =
     (let isSubquery = (case findNextNonWhitespace rest of
                          Some n \<Rightarrow> type n = Keyword \<and> value n \<in> CLAUSE_KEYWORDS
                        | None \<Rightarrow> False);
          isBlock = (\<not> isSubquery \<and> blockParenPending st0);
          st = (if isBlock then st0\<lparr>blockParenPending := False\<rparr> else st0);
          isConcatExpand = (\<not> isSubquery \<and> \<not> isBlock
            \<and> (case prevMeaningful st of
                  Some p \<Rightarrow> type p = Keyword \<and> value p \<in> CONCAT_FUNCTIONS
                    \<and> countTopLevelArgs rest > 2
                | None \<Rightarrow> False))
      in if isSubquery \<or> isBlock then
           andThen (if lineStart st then indentPlus opts st else Inr '' '')
             (\<lambda>lead. Inr ((push ''\<newline>'' (push ''('' (push lead st)))
                \<lparr>parenStack := (if isSubquery then subquery else block) # parenStack st,
                 indentLevel := indentLevel st + 1, lineStart := True, statementStart := False,
                 prevMeaningful := Some token\<rparr>))
         else if isConcatExpand then
           andThen (if lineStart st then parenLineStart opts st else Inr st)
             (\<lambda>st1. Inr ((push ''\<newline>'' (push ''('' st1))
                \<lparr>parenStack := concatParen # parenStack st1,
                 indentLevel := indentLevel st1 + 1, lineStart := True,
                 prevMeaningful := Some token\<rparr>))
         else
           andThen (if lineStart st then parenLineStart opts st
                    else if \<not> isFunctionCall CLAUSE_KEYWORDS st then Inr (push '' '' st)
                    else Inr st)
             (\<lambda>st1. Inr ((push ''('' st1)
                \<lparr>parenStack := grouping # parenStack st1, lineStart := False,
                 prevMeaningful := Some token\<rparr>)))"

definition handleCloseParen :: "FormatOptions \<Rightarrow> Token \<Rightarrow> State \<Rightarrow> error + State" where
  "handleCloseParen opts token st0 =
     (let parenType = (case parenStack st0 of [] \<Rightarrow> grouping | p # _ \<Rightarrow> p);
          st = st0\<lparr>parenStack := tl (parenStack st0)\<rparr>
      in if parenType = subquery \<or> parenType = block \<or> parenType = concatParen then
           (let st1 = (if indentLevel st > 0 then st\<lparr>indentLevel := indentLevel st - 1\<rparr> else st)
            in andThen (indent opts st1)
                 (\<lambda>ind. let st2 = push (''\<newline>'' @ ind @ '')'') st1;
                             st3 = (if parenStack st2 \<noteq> [] \<and> hd (parenStack st2) = grouping
                                    then st2\<lparr>afterBlockClose := True\<rparr> else st2)
                         in Inr (st3\<lparr>lineStart := False, prevMeaningful := Some token\<rparr>)))
         else Inr ((push '')'' (st\<lparr>afterBlockClose := False\<rparr>))
                     \<lparr>lineStart := False, prevMeaningful := Some token\<rparr>))"

definition handleCase :: "FormatOptions \<Rightarrow> Token \<Rightarrow> State \<Rightarrow> error + State" where
  "handleCase opts token st0 =
     (let st1 = (if afterBlockClose st0
                 then (push ''\<newline>'' st0)\<lparr>lineStart := True, afterBlockClose := False\<rparr>
                 else st0);
          st2 = (if \<not> lineStart st1 then (push ''\<newline>'' st1)\<lparr>lineStart := True\<rparr> else st1)
      in andThen (caseIndent opts st2)
           (\<lambda>ind. Inr ((push (applyCase opts token) (push ind st2))
              \<lparr>caseStack := indentLevel st2 # caseStack st2, indentLevel := indentLevel st2 + 1,
               lineStart := False, statementStart := False, prevMeaningful := Some token\<rparr>)))"

text \<open>\<open>WHEN\<close> and \<open>ELSE\<close> inside a \<open>CASE\<close> block have the same handler text.\<close>

definition handleWhenElse :: "FormatOptions \<Rightarrow> Token \<Rightarrow> State \<Rightarrow> error + State" where
  "handleWhenElse opts token st0 =
     (let st = (if \<not> lineStart st0 then push ''\<newline>'' st0 else st0)
      in andThen (indentPlus opts st)
           (\<lambda>ind. Inr ((push (ind @ applyCase opts token) st)
              \<lparr>lineStart := False, statementStart := False, prevMeaningful := Some token\<rparr>)))"

definition handleEnd :: "FormatOptions \<Rightarrow> Token \<Rightarrow> State \<Rightarrow> error + State" where
  "handleEnd opts token st0 =
     (let st = (if \<not> lineStart st0 then push ''\<newline>'' st0 else st0)
      in andThen (indent opts st)
           (\<lambda>ind. Inr ((push (ind @ applyCase opts token) st)
              \<lparr>indentLevel := hd (caseStack st), caseStack := tl (caseStack st),
               lineStart := False, statementStart := False, prevMeaningful := Some token\<rparr>)))"

definition handleCommentKeyword :: "FormatOptions \<Rightarrow> Token \<Rightarrow> State \<Rightarrow> error + State" where
  "handleCommentKeyword opts token st0 =
     (let st = (if \<not> lineStart st0 \<and> result st0 \<noteq> [] then push ''\<newline>'' st0 else st0)
      in andThen (indent opts st)
           (\<lambda>ind. Inr ((push (ind @ applyCase opts token) st)
              \<lparr>lineStart := False, statementStart := False, prevMeaningful := Some token\<rparr>)))"

definition handleClauseKeyword ::
    "string set \<Rightarrow> FormatOptions \<Rightarrow> Token \<Rightarrow> Token list \<Rightarrow> State \<Rightarrow> error + State" where
  "handleClauseKeyword CLAUSE_KEYWORDS opts token rest st0 =
     (let st = (if \<not> lineStart st0 \<and> result st0 \<noteq> [] then push ''\<newline>'' st0 else st0)
      in andThen (if value token = ''ON'' then repeatSpace (indentSize opts) else Inr [])
           (\<lambda>extraIndent. andThen (indent opts st)
              (\<lambda>ind. let st1 = (push (ind @ extraIndent @ applyCase opts token) st)
                              \<lparr>lineStart := False, statementStart := False\<rparr>;
                          st2 = (if value token = ''SELECT''
                                   \<and> countSelectColumns CLAUSE_KEYWORDS rest > 1
                                 then st1\<lparr>needNewlineBeforeFirstColumn := True\<rparr> else st1)
                      in Inr (st2\<lparr>prevMeaningful := Some token\<rparr>))))"

definition handleComma :: "FormatOptions \<Rightarrow> Token \<Rightarrow> State \<Rightarrow> error + State" where
  "handleComma opts token st =
     andThen
       (if topParen st = Some grouping \<and> \<not> afterBlockClose st
        then Inr ((push '','' st)\<lparr>lineStart := False\<rparr>)
        else if commaPosition opts = Trailing
        then Inr ((push '',\<newline>'' st)\<lparr>lineStart := True\<rparr>)
        else andThen (indent opts st)
               (\<lambda>ind. Inr ((push (''\<newline>'' @ ind @ '','') st)\<lparr>lineStart := False\<rparr>)))
       (\<lambda>st1. Inr (st1\<lparr>afterBlockClose := False, prevMeaningful := Some token\<rparr>))"

definition handleDot :: "Token \<Rightarrow> State \<Rightarrow> State" where
  "handleDot token st = (push ''.'' st)\<lparr>lineStart := False, prevMeaningful := Some token\<rparr>"

definition handleAfterDot :: "FormatOptions \<Rightarrow> Token \<Rightarrow> State \<Rightarrow> State" where
  "handleAfterDot opts token st =
     (push (applyCase opts token) st)\<lparr>lineStart := False, prevMeaningful := Some token\<rparr>"

definition handleDollarQuoted :: "FormatOptions \<Rightarrow> Token \<Rightarrow> State \<Rightarrow> error + State" where
  "handleDollarQuoted opts token st =
     andThen
       (if \<not> lineStart st then
          (if prevType st OpenParen then Inr st
           else if startsWith (value token) ''\<newline>'' \<or> startsWith (value token) [CHR 0x0D]
           then Inr st
           else Inr (push '' '' st))
        else andThen (contentIndent opts st) (\<lambda>ind. Inr (push ind st)))
       (\<lambda>st1. Inr ((push (value token) st1)
          \<lparr>lineStart := False, statementStart := False, prevMeaningful := Some token\<rparr>))"

definition handleDefault :: "FormatOptions \<Rightarrow> Token \<Rightarrow> State \<Rightarrow> error + State" where
  "handleDefault opts token st0 =
     (let st1 = (if needNewlineBeforeFirstColumn st0 then
                   (if type token = Keyword \<and> (value token = ''DISTINCT'' \<or> value token = ''ALL'')
                    then st0
                    else (push ''\<newline>'' st0)
                           \<lparr>lineStart := True, needNewlineBeforeFirstColumn := False\<rparr>)
                 else st0);
          st2 = (if afterBlockClose st1
                 then (push ''\<newline>'' st1)\<lparr>lineStart := True, afterBlockClose := False\<rparr>
                 else st1)
      in andThen
           (if \<not> lineStart st2 then
              (if prevType st2 OpenParen then Inr st2 else Inr (push '' '' st2))
            else andThen (contentIndent opts st2) (\<lambda>ind. Inr ((push ind st2)\<lparr>lineStart := False\<rparr>)))
           (\<lambda>st3. Inr ((push (applyCase opts token) st3)
              \<lparr>lineStart := False, statementStart := False, prevMeaningful := Some token\<rparr>)))"

text \<open>
  The part of the loop body after the \<open>EOF\<close> test and the DDL tracking: the first handler
  whose test holds, in source order.
\<close>

definition handleToken ::
    "string set \<Rightarrow> FormatOptions \<Rightarrow> Token \<Rightarrow> Token list \<Rightarrow> State \<Rightarrow> error + State" where
  "handleToken CLAUSE_KEYWORDS opts token rest st =
     (if type token = Semicolon then Inr (handleSemicolon token st)
      else if type token = OpenParen then handleOpenParen CLAUSE_KEYWORDS opts token rest st
      else if type token = CloseParen then handleCloseParen opts token st
      else if type token = Keyword \<and> value token = ''CASE'' then handleCase opts token st
      else if type token = Keyword \<and> value token = ''WHEN'' \<and> caseStack st \<noteq> []
      then handleWhenElse opts token st
      else if type token = Keyword \<and> value token = ''ELSE'' \<and> caseStack st \<noteq> []
      then handleWhenElse opts token st
      else if type token = Keyword \<and> value token = ''END'' \<and> caseStack st \<noteq> []
      then handleEnd opts token st
      else if type token = Keyword \<and> value token = ''COMMENT'' \<and> functionContext st
      then handleCommentKeyword opts token st
      else if type token = Keyword \<and> value token \<in> CLAUSE_KEYWORDS
      then handleClauseKeyword CLAUSE_KEYWORDS opts token rest st
      else if type token = Comma then handleComma opts token st
      else if type token = Dot then Inr (handleDot token st)
      else if prevType st Dot then Inr (handleAfterDot opts token st)
      else if type token = DollarQuotedString then handleDollarQuoted opts token st
      else handleDefault opts token st)"

text \<open>
  One iteration of the \<open>for\<close> loop at \<open>token\<close>, with \<open>rest\<close> the tokens after it:
  \<open>Some\<close> of the next state when the loop goes on, \<open>None\<close> at the \<open>break\<close>.
\<close>

definition iteration ::
    "string set \<Rightarrow> FormatOptions \<Rightarrow> Token \<Rightarrow> Token list \<Rightarrow> State \<Rightarrow> error + State option" where
  "iteration CLAUSE_KEYWORDS opts token rest st =
     (if type token = Whitespace \<or> type token = Newline then Inr (Some st)
      else if type token = Comment \<or> type token = BlockComment then
        andThen (handleComment CLAUSE_KEYWORDS opts token rest st) (\<lambda>st1. Inr (Some st1))
      else if type token = EOF then Inr None
      else andThen (handleToken CLAUSE_KEYWORDS opts token rest (trackDdl token st))
             (\<lambda>st1. Inr (Some st1)))"

fun formatLoop ::
    "string set \<Rightarrow> FormatOptions \<Rightarrow> Token list \<Rightarrow> State \<Rightarrow> error + State" where
  "formatLoop CLAUSE_KEYWORDS opts [] st = Inr st"
| "formatLoop CLAUSE_KEYWORDS opts (token # rest) st =
     (case iteration CLAUSE_KEYWORDS opts token rest st of
        Inl e \<Rightarrow> Inl e
      | Inr None \<Rightarrow> Inr st
      | Inr (Some st1) \<Rightarrow> formatLoop CLAUSE_KEYWORDS opts rest st1)"

text \<open>
  The states of the engine during a run: the state before the first iteration and the state
  after every iteration that completed.
\<close>

fun engineStates ::
    "string set \<Rightarrow> FormatOptions \<Rightarrow> Token list \<Rightarrow> State \<Rightarrow> State list" where
  "engineStates CLAUSE_KEYWORDS opts [] st = [st]"
| "engineStates CLAUSE_KEYWORDS opts (token # rest) st =
     st # (case iteration CLAUSE_KEYWORDS opts token rest st of
             Inr (Some st1) \<Rightarrow> engineStates CLAUSE_KEYWORDS opts rest st1
           | _ \<Rightarrow> [])"

definition mergedTokens :: "string set \<Rightarrow> string \<Rightarrow> Token list" where
  "mergedTokens KEYWORDS input =
     mergeUnquotedLanguageBody (mergeClauseKeywords (tokenize KEYWORDS input))"

text \<open>
  \<open>formatDatabricksSQL\<close>, with the two keyword tables as parameters and \<open>opts\<close> the options
  after the defaults were merged in.
\<close>

definition formatDatabricksSQL ::
    "string set \<Rightarrow> string set \<Rightarrow> FormatOptions \<Rightarrow> string \<Rightarrow> error + string" where
  "formatDatabricksSQL KEYWORDS CLAUSE_KEYWORDS opts input =
     andThen (formatLoop CLAUSE_KEYWORDS opts (mergedTokens KEYWORDS input) initialState)
       (\<lambda>st. Inr (trim (concat (result st)) @ ''\<newline>''))"

section \<open>Properties of the lexer\<close>

lemma scan_lossless: "concat (map sourceText (scan K input)) = input"
proof (induction K input rule: scan.induct)
  case (1 K)
  show ?case by simp
next
  case (2 K ch rest)
  obtain t r where nt: "nextToken K ch rest = (t, r)"
    by (cases "nextToken K ch rest")
  from 2 [OF nt [symmetric]] nt nextToken_lossless [OF nt] show ?case
    by simp
qed

text \<open>
  C1 (as the code has it).  For every keyword table and every input, concatenating what each
  token of \<open>tokenize\<close> stands for in the source, in order, gives the input back: the token's
  \<open>original\<close> text when it has one (keyword tokens), its \<open>value\<close> otherwise.
\<close>

theorem tokenize_lossless: "concat (map sourceText (tokenize K input)) = input"
  by (simp add: tokenize_def scan_lossless)

text \<open>
  C1 as stated fails: the \<open>value\<close> of a keyword token is the upper-cased word, so the
  values of the tokens of \<open>select\<close> concatenate to \<open>SELECT\<close>.
\<close>

theorem tokenize_value_concat_counterexample:
  "concat (map value (tokenize specKEYWORDS ''select'')) \<noteq> ''select''"
  by (simp add: tokenize_def nextToken_def wordToken_def mkToken_def specKEYWORDS_def
      toUpperCase_def upperChar_def lowerLetters_def upperLetters_def
      isLetterOrUnderscore_def isWordChar_def isDigit_def startsNumber_def
      twoCharOperators_def singleCharOperators_def)

subsection \<open>Keyword tokens are upper-cased\<close>

text \<open>
  The value of every keyword token of the lexer has no lower-case letter.  The merge pass looks
  such a value up with \<open>mergeables[t.value]\<close>; the names that an object literal inherits
  (\<open>constructor\<close>, \<open>toString\<close>, \<open>valueOf\<close>, \<open>hasOwnProperty\<close>, ...) all have a lower-case
  letter, so on the lexer's tokens the lookup is a lookup in the table's own entries, which is
  how \<open>mergeClauseKeywords\<close> is modelled.
\<close>

lemma upperChar_not_lower: "upperChar c \<notin> set lowerLetters"
proof (cases "c \<in> set lowerLetters")
  case True
  then show ?thesis
    by (auto simp: upperChar_def lowerLetters_def upperLetters_def)
next
  case False
  then have "map_of (zip lowerLetters upperLetters) c = None"
    by (simp add: map_of_eq_None_iff lowerLetters_def upperLetters_def)
  with False show ?thesis
    by (simp add: upperChar_def)
qed

definition keywordUpper :: "Token \<times> string \<Rightarrow> bool" where
  "keywordUpper x = (type (fst x) = Keyword \<longrightarrow> set (value (fst x)) \<inter> set lowerLetters = {})"

lemma keywordUpper_if:
  "(c \<Longrightarrow> keywordUpper a) \<Longrightarrow> (\<not> c \<Longrightarrow> keywordUpper b) \<Longrightarrow> keywordUpper (if c then a else b)"
  by simp

lemma keywordUpper_nextToken: "keywordUpper (nextToken K ch rest)"
  unfolding nextToken_def
  apply (intro keywordUpper_if)
  apply (simp_all add: keywordUpper_def mkToken_def wordToken_def Let_def split_beta)
  apply (auto simp: toUpperCase_def upperChar_not_lower)
  done

lemma scan_keyword_upper:
  "t \<in> set (scan K input) \<Longrightarrow> type t = Keyword \<Longrightarrow> set (value t) \<inter> set lowerLetters = {}"
proof (induction K input rule: scan.induct)
  case (1 K)
  then show ?case by simp
next
  case (2 K ch rest)
  obtain t' r where nt: "nextToken K ch rest = (t', r)"
    by (cases "nextToken K ch rest")
  from keywordUpper_nextToken [of K ch rest] nt
  have "type t' = Keyword \<longrightarrow> set (value t') \<inter> set lowerLetters = {}"
    by (simp add: keywordUpper_def)
  with 2 nt show ?case by auto
qed

subsection \<open>Numeric literals\<close>

text \<open>
  The shape of a number token as the lexer builds it: a non-empty run of digits and dots, in
  any mixture, that starts with a digit or with a dot and a digit; then nothing, or \<open>e\<close>
  or \<open>E\<close>, an optional sign, and zero or more digits.
\<close>

definition exponentShape :: "string \<Rightarrow> bool" where
  "exponentShape ex =
     (case ex of
        [] \<Rightarrow> True
      | e # r \<Rightarrow> (e = CHR ''e'' \<or> e = CHR ''E'')
          \<and> (case r of
                [] \<Rightarrow> True
              | g # ds \<Rightarrow> if g = CHR ''+'' \<or> g = CHR ''-'' then list_all isDigit ds
                          else list_all isDigit r))"

definition numberShape :: "string \<Rightarrow> bool" where
  "numberShape s =
     (let m = takeWhile isDigitOrDot s
      in m \<noteq> [] \<and> (isDigit (hd m) \<or> (1 < length m \<and> isDigit (m ! 1)))
         \<and> exponentShape (dropWhile isDigitOrDot s))"

text \<open>
  The shape the specification describes also bounds the runs of dots in the mantissa by one.
\<close>

fun dotRuns :: "string \<Rightarrow> nat" where
  "dotRuns [] = 0"
| "dotRuns [c] = (if c = CHR ''.'' then 1 else 0)"
| "dotRuns (c # d # cs) = (if c = CHR ''.'' \<and> d \<noteq> CHR ''.'' then 1 else 0) + dotRuns (d # cs)"

definition claimedNumberShape :: "string \<Rightarrow> bool" where
  "claimedNumberShape s = (numberShape s \<and> dotRuns (takeWhile isDigitOrDot s) \<le> 1)"

lemma not_digitOrDot_e [simp]:
  "\<not> isDigitOrDot CHR ''e''" "\<not> isDigitOrDot CHR ''E''"
  by (simp_all add: isDigitOrDot_def isDigit_def)

lemma exponentPart_shape: "exponentShape (fst (exponentPart s))"
proof (cases s)
  case Nil
  then show ?thesis by (simp add: exponentPart_def exponentShape_def)
next
  case (Cons e s1)
  have dig: "list_all isDigit (takeWhile isDigit u)" for u
    by (simp add: list_all_iff) (meson set_takeWhileD)
  show ?thesis
  proof (cases s1)
    case Nil
    with Cons show ?thesis by (simp add: exponentPart_def exponentShape_def)
  next
    case s1: (Cons g s2)
    show ?thesis
    proof (cases "g = CHR ''+'' \<or> g = CHR ''-''")
      case True
      with Cons s1 dig [of s2] show ?thesis
        by (auto simp: exponentPart_def exponentShape_def)
    next
      case False
      with Cons s1 dig [of "g # s2"] show ?thesis
        by (auto simp: exponentPart_def exponentShape_def split: list.splits)
    qed
  qed
qed

lemma exponentPart_head:
  "fst (exponentPart s) \<noteq> [] \<Longrightarrow> \<not> isDigitOrDot (hd (fst (exponentPart s)))"
  by (cases s) (auto simp: exponentPart_def Let_def split: prod.splits)

lemma takeWhile_append_stop:
  "(ex \<noteq> [] \<Longrightarrow> \<not> P (hd ex)) \<Longrightarrow> takeWhile P (takeWhile P s @ ex) = takeWhile P s"
proof (cases ex)
  case Nil
  then show ?thesis by simp
next
  case (Cons a list)
  assume "ex \<noteq> [] \<Longrightarrow> \<not> P (hd ex)"
  with Cons have "\<not> P a" by simp
  moreover have "takeWhile P (takeWhile P s @ ex) = takeWhile P s @ takeWhile P ex"
    by (rule takeWhile_append2) (rule set_takeWhileD [THEN conjunct2])
  ultimately show ?thesis
    using Cons by simp
qed

lemma dropWhile_append_stop:
  "(ex \<noteq> [] \<Longrightarrow> \<not> P (hd ex)) \<Longrightarrow> dropWhile P (takeWhile P s @ ex) = ex"
proof (cases ex)
  case Nil
  have "dropWhile P (takeWhile P s @ []) = dropWhile P []"
    by (rule dropWhile_append2) (rule set_takeWhileD [THEN conjunct2])
  with Nil show ?thesis by simp
next
  case (Cons a list)
  assume "ex \<noteq> [] \<Longrightarrow> \<not> P (hd ex)"
  with Cons have "\<not> P a" by simp
  moreover have "dropWhile P (takeWhile P s @ ex) = dropWhile P ex"
    by (rule dropWhile_append2) (rule set_takeWhileD [THEN conjunct2])
  ultimately show ?thesis
    using Cons by simp
qed

lemma numberText_shape:
  assumes "startsNumber ch rest"
  shows "numberShape (fst (numberText (ch # rest)))"
proof -
  let ?s = "ch # rest"
  let ?ex = "fst (exponentPart (dropWhile isDigitOrDot ?s))"
  have whole: "fst (numberText ?s) = takeWhile isDigitOrDot ?s @ ?ex"
    by (simp add: numberText_def split_beta)
  have stop: "?ex \<noteq> [] \<Longrightarrow> \<not> isDigitOrDot (hd ?ex)"
    by (rule exponentPart_head)
  have m: "takeWhile isDigitOrDot (fst (numberText ?s)) = takeWhile isDigitOrDot ?s"
    unfolding whole using stop by (rule takeWhile_append_stop)
  have d: "dropWhile isDigitOrDot (fst (numberText ?s)) = ?ex"
    unfolding whole using stop by (rule dropWhile_append_stop)
  have first: "isDigitOrDot ch"
    using assms by (auto simp: startsNumber_def isDigitOrDot_def)
  have lead: "isDigit (hd (takeWhile isDigitOrDot ?s))
      \<or> (1 < length (takeWhile isDigitOrDot ?s) \<and> isDigit (takeWhile isDigitOrDot ?s ! 1))"
  proof (cases "isDigit ch")
    case True
    with first show ?thesis by simp
  next
    case False
    with assms obtain d ds where "rest = d # ds" "isDigit d"
      by (cases rest) (auto simp: startsNumber_def)
    with first show ?thesis
      by (simp add: isDigitOrDot_def)
  qed
  show ?thesis
    unfolding numberShape_def Let_def m d
    using first lead exponentPart_shape by simp
qed

definition numberOk :: "Token \<times> string \<Rightarrow> bool" where
  "numberOk x = (type (fst x) = Number \<longrightarrow> numberShape (value (fst x)))"

lemma numberOk_if:
  "(c \<Longrightarrow> numberOk a) \<Longrightarrow> (\<not> c \<Longrightarrow> numberOk b) \<Longrightarrow> numberOk (if c then a else b)"
  by simp

lemma numberOk_nextToken: "numberOk (nextToken K ch rest)"
  unfolding nextToken_def
  apply (intro numberOk_if)
  apply (simp_all add: numberOk_def mkToken_def wordToken_def Let_def split_beta)
  apply (drule numberText_shape)
  apply (simp add: split_beta)
  done

lemma scan_numbers: "t \<in> set (scan K input) \<Longrightarrow> type t = Number \<Longrightarrow> numberShape (value t)"
proof (induction K input rule: scan.induct)
  case (1 K)
  then show ?case by simp
next
  case (2 K ch rest)
  obtain t' r where nt: "nextToken K ch rest = (t', r)"
    by (cases "nextToken K ch rest")
  from numberOk_nextToken [of K ch rest] nt
  have "type t' = Number \<longrightarrow> numberShape (value t')"
    by (simp add: numberOk_def)
  with 2 nt show ?case by auto
qed

lemma dot_digit_starts_number:
  "isDigit d \<Longrightarrow> type (fst (nextToken K CHR ''.'' (d # rest))) = Number"
  by (simp add: nextToken_def startsNumber_def mkToken_def split_beta)

text \<open>
  C8 (as the code has it).  For every keyword table and input, the value of every number token
  of \<open>tokenize\<close> is a non-empty mixture of digits and dots (any number of runs of dots) that
  starts with a digit or with a dot followed by a digit, optionally followed by \<open>e\<close> or \<open>E\<close>,
  an optional sign and zero or more digits; and an input that starts with a dot immediately
  followed by a digit starts with a number token.
\<close>

theorem number_tokens:
  "(\<forall>t \<in> set (tokenize K input). type t = Number \<longrightarrow> numberShape (value t))
   \<and> (isDigit d \<longrightarrow> type (hd (tokenize K (CHR ''.'' # d # rest))) = Number)"
proof
  show "\<forall>t \<in> set (tokenize K input). type t = Number \<longrightarrow> numberShape (value t)"
    by (auto simp: tokenize_def mkToken_def dest: scan_numbers)
  show "isDigit d \<longrightarrow> type (hd (tokenize K (CHR ''.'' # d # rest))) = Number"
    using dot_digit_starts_number [of d K rest]
    by (auto simp: tokenize_def split_beta)
qed

text \<open>
  C8 as stated fails: \<open>1.2.3\<close> is one number token, and it has two runs of dots.
\<close>

theorem number_two_dot_runs_counterexample:
  "type (hd (tokenize specKEYWORDS ''1.2.3'')) = Number
   \<and> \<not> claimedNumberShape (value (hd (tokenize specKEYWORDS ''1.2.3'')))"
  by code_simp

text \<open>
  Both hypotheses hold at concrete inputs: \<open>1.2.3e+\<close> is a number token of the shape above,
  and \<open>.5\<close> starts with a number token.
\<close>

theorem number_tokens_witness:
  "mkToken Number ''1.2.3e+'' \<in> set (tokenize specKEYWORDS ''1.2.3e+'')
   \<and> numberShape ''1.2.3e+'' \<and> isDigit CHR ''5''
   \<and> type (hd (tokenize specKEYWORDS ''.5'')) = Number"
proof -
  have mem: "mkToken Number ''1.2.3e+'' \<in> set (tokenize specKEYWORDS ''1.2.3e+'')"
    by code_simp
  have dig: "isDigit CHR ''5''"
    by code_simp
  from number_tokens [of specKEYWORDS "''1.2.3e+''" "CHR ''5''" "[]"] mem dig
  show ?thesis
    by (auto simp: mkToken_def)
qed

section \<open>The keyword-merge pass against its description\<close>

text \<open>
  The description of the merge pass, in its own words: skip Whitespace and Newline tokens;
  a suffix phrase fits when its words are, in order, the next keyword tokens that remain;
  the first phrase of the keyword's list that fits is merged, and the scan goes on after the
  phrase's last word.
\<close>

definition significant :: "Token list \<Rightarrow> Token list" where
  "significant ts = filter (\<lambda>t. \<not> isSkippable t) ts"

fun afterSignificant :: "nat \<Rightarrow> Token list \<Rightarrow> Token list" where
  "afterSignificant 0 ts = ts"
| "afterSignificant (Suc n) [] = []"
| "afterSignificant (Suc n) (t # ts) =
     (if isSkippable t then afterSignificant (Suc n) ts else afterSignificant n ts)"

definition isKeywordPart :: "string \<Rightarrow> Token \<Rightarrow> bool" where
  "isKeywordPart part t = (type t = Keyword \<and> value t = part)"

definition phraseFits :: "string \<Rightarrow> Token list \<Rightarrow> bool" where
  "phraseFits suffix ts =
     (let parts = splitOn CHR '' '' suffix
      in list_all2 isKeywordPart parts (take (length parts) (significant ts)))"

definition compoundKeyword :: "Token \<Rightarrow> string \<Rightarrow> Token" where
  "compoundKeyword t suffix =
     \<lparr>type = Keyword, value = value t @ '' '' @ suffix, original = original t\<rparr>"

definition mergeStep :: "Token \<Rightarrow> Token list \<Rightarrow> Token \<times> Token list" where
  "mergeStep t ts =
     (if type t = Keyword then
        (case map_of mergeables (value t) of
           None \<Rightarrow> (t, ts)
         | Some suffixes \<Rightarrow>
             (case find (\<lambda>suffix. phraseFits suffix ts) suffixes of
                None \<Rightarrow> (t, ts)
              | Some suffix \<Rightarrow>
                  (compoundKeyword t suffix,
                   afterSignificant (length (splitOn CHR '' '' suffix)) ts)))
      else (t, ts))"

lemma dropWhile_skippable_Nil:
  "dropWhile isSkippable ts = [] \<Longrightarrow> significant ts = []"
  by (induction ts) (auto simp: significant_def split: if_splits)

lemma dropWhile_skippable_Cons:
  "dropWhile isSkippable ts = t # r \<Longrightarrow>
     significant ts = t # significant r \<and> afterSignificant (Suc n) ts = afterSignificant n r"
  by (induction ts) (auto simp: significant_def split: if_splits)

lemma matchParts_spec:
  "matchParts parts ts =
     (if list_all2 isKeywordPart parts (take (length parts) (significant ts))
      then Some (afterSignificant (length parts) ts) else None)"
proof (induction parts arbitrary: ts)
  case Nil
  show ?case by simp
next
  case (Cons part parts)
  show ?case
  proof (cases "dropWhile isSkippable ts")
    case none: Nil
    have "significant ts = []"
      using none by (rule dropWhile_skippable_Nil)
    then show ?thesis
      by (simp add: none)
  next
    case some: (Cons t r)
    have "significant ts = t # significant r"
      and "afterSignificant (Suc (length parts)) ts = afterSignificant (length parts) r"
      using dropWhile_skippable_Cons [OF some] by simp_all
    then show ?thesis
      by (simp add: some Cons.IH [of r] isKeywordPart_def)
  qed
qed

lemma firstMatch_spec:
  "firstMatch suffixes ts =
     map_option (\<lambda>suffix. (suffix, afterSignificant (length (splitOn CHR '' '' suffix)) ts))
       (find (\<lambda>suffix. phraseFits suffix ts) suffixes)"
  by (induction suffixes) (simp_all add: matchParts_spec phraseFits_def Let_def)

text \<open>
  C6.  For every token sequence, the merge pass treats the first token \<open>t\<close> as
  \<open>mergeStep\<close> says and goes on with the tokens that \<open>mergeStep\<close> leaves: when \<open>t\<close> is a
  keyword with an entry in the merge table and some suffix phrase of its list fits the tokens
  that follow (Whitespace and Newline tokens skipped, every word of the phrase a keyword
  token), \<open>t\<close> and the tokens up to the last word of the first such phrase become one keyword
  token whose value is \<open>t\<close>'s value, a space and the phrase; otherwise \<open>t\<close> passes through
  unchanged, and the pass goes on with the very next token.
\<close>

theorem mergeClauseKeywords_step:
  "mergeClauseKeywords [] = [] \<and>
   mergeClauseKeywords (t # ts) = (case mergeStep t ts of (t', r) \<Rightarrow> t' # mergeClauseKeywords r)"
  by (simp add: mergeStep_def firstMatch_spec compoundKeyword_def split: option.splits)

text \<open>
  An instance: after \<open>LEFT\<close> the phrase \<open>JOIN\<close> does not fit and \<open>OUTER JOIN\<close> does, across
  white space and a line break.
\<close>

theorem mergeClauseKeywords_step_witness:
  "mergeStep \<lparr>type = Keyword, value = ''LEFT'', original = Some ''left''\<rparr>
     [mkToken Whitespace ''  '',
      \<lparr>type = Keyword, value = ''OUTER'', original = Some ''outer''\<rparr>,
      mkToken Newline ''\<newline>'',
      \<lparr>type = Keyword, value = ''JOIN'', original = Some ''join''\<rparr>,
      mkToken Whitespace '' '', mkToken Identifier ''x'']
   = (\<lparr>type = Keyword, value = ''LEFT OUTER JOIN'', original = Some ''left''\<rparr>,
      [mkToken Whitespace '' '', mkToken Identifier ''x''])
   \<and> mergeClauseKeywords
     [\<lparr>type = Keyword, value = ''LEFT'', original = Some ''left''\<rparr>,
      mkToken Whitespace ''  '',
      \<lparr>type = Keyword, value = ''OUTER'', original = Some ''outer''\<rparr>,
      mkToken Newline ''\<newline>'',
      \<lparr>type = Keyword, value = ''JOIN'', original = Some ''join''\<rparr>,
      mkToken Whitespace '' '', mkToken Identifier ''x'']
   = [\<lparr>type = Keyword, value = ''LEFT OUTER JOIN'', original = Some ''left''\<rparr>,
      mkToken Whitespace '' '', mkToken Identifier ''x'']"
proof -
  let ?t = "\<lparr>type = Keyword, value = ''LEFT'', original = Some ''left''\<rparr>"
  let ?ts = "[mkToken Whitespace ''  '',
      \<lparr>type = Keyword, value = ''OUTER'', original = Some ''outer''\<rparr>,
      mkToken Newline ''\<newline>'',
      \<lparr>type = Keyword, value = ''JOIN'', original = Some ''join''\<rparr>,
      mkToken Whitespace '' '', mkToken Identifier ''x'']"
  have step: "mergeStep ?t ?ts
    = (\<lparr>type = Keyword, value = ''LEFT OUTER JOIN'', original = Some ''left''\<rparr>,
       [mkToken Whitespace '' '', mkToken Identifier ''x''])"
    by code_simp
  have rest: "mergeClauseKeywords [mkToken Whitespace '' '', mkToken Identifier ''x'']
    = [mkToken Whitespace '' '', mkToken Identifier ''x'']"
    by (simp add: mkToken_def)
  from mergeClauseKeywords_step [of ?t ?ts] step rest show ?thesis
    by simp
qed

section \<open>Invariants of the engine\<close>

text \<open>
  The indent level and every snapshot on the CASE stack are non-negative.  \<open>okOr opts m P\<close>
  says of a computation \<open>m\<close> that may raise: it raises only when \<open>indentSize\<close> is
  negative, and its result satisfies \<open>P\<close> otherwise.
\<close>

definition wellIndented :: "State \<Rightarrow> bool" where
  "wellIndented st = (0 \<le> indentLevel st \<and> list_all (\<lambda>n. 0 \<le> n) (caseStack st))"

definition okOr :: "FormatOptions \<Rightarrow> error + 'a \<Rightarrow> ('a \<Rightarrow> bool) \<Rightarrow> bool" where
  "okOr opts m P = (case m of Inl e \<Rightarrow> indentSize opts < 0 | Inr x \<Rightarrow> P x)"

lemma okOr_Inr [simp]: "okOr opts (Inr x) P = P x"
  by (simp add: okOr_def)

lemma okOr_andThen:
  "okOr opts m P \<Longrightarrow> (\<And>x. P x \<Longrightarrow> okOr opts (f x) Q) \<Longrightarrow> okOr opts (andThen m f) Q"
  by (cases m) (simp_all add: okOr_def andThen_def)

lemma okOr_if:
  "(c \<Longrightarrow> okOr opts a P) \<Longrightarrow> (\<not> c \<Longrightarrow> okOr opts b P) \<Longrightarrow> okOr opts (if c then a else b) P"
  by simp

lemma okOr_weaken: "okOr opts m P \<Longrightarrow> (\<And>x. P x \<Longrightarrow> Q x) \<Longrightarrow> okOr opts m Q"
  by (cases m) (simp_all add: okOr_def)

lemma okOr_repeatSpace: "(n < 0 \<Longrightarrow> indentSize opts < 0) \<Longrightarrow> okOr opts (repeatSpace n) (\<lambda>s. True)"
  by (simp add: okOr_def repeatSpace_def)

lemma okOr_indent: "wellIndented st \<Longrightarrow> okOr opts (indent opts st) (\<lambda>s. True)"
proof -
  assume w: "wellIndented st"
  have "indentSize opts * indentLevel st < 0 \<Longrightarrow> indentSize opts < 0"
  proof (rule ccontr)
    assume neg: "indentSize opts * indentLevel st < 0" and "\<not> indentSize opts < 0"
    then have "0 \<le> indentSize opts" by simp
    with w have "0 \<le> indentSize opts * indentLevel st"
      by (simp add: wellIndented_def)
    with neg show False by simp
  qed
  then show ?thesis
    unfolding indent_def by (rule okOr_repeatSpace)
qed

lemma okOr_indentPlus: "wellIndented st \<Longrightarrow> okOr opts (indentPlus opts st) (\<lambda>s. True)"
  unfolding indentPlus_def
  by (intro okOr_andThen [where P = "\<lambda>s. True"] okOr_indent okOr_repeatSpace) simp_all

lemma okOr_contentIndent: "wellIndented st \<Longrightarrow> okOr opts (contentIndent opts st) (\<lambda>s. True)"
  by (simp add: contentIndent_def okOr_indent okOr_indentPlus)

lemma okOr_caseIndent: "wellIndented st \<Longrightarrow> okOr opts (caseIndent opts st) (\<lambda>s. True)"
  by (simp add: caseIndent_def okOr_indent okOr_indentPlus)

lemma okOr_commentIndent:
  "wellIndented st \<Longrightarrow> okOr opts (commentIndent CK opts nm st) (\<lambda>s. True)"
  by (simp add: commentIndent_def Let_def okOr_indent okOr_indentPlus okOr_contentIndent
      okOr_caseIndent split: option.splits)

lemma wellIndented_push [simp]: "wellIndented (push s st) = wellIndented st"
  by (simp add: wellIndented_def push_def)

lemma wellIndented_result_update [simp]: "wellIndented (st\<lparr>result := r\<rparr>) = wellIndented st"
  by (simp add: wellIndented_def)

lemma wellIndented_updates [simp]:
  "wellIndented (st\<lparr>lineStart := b\<rparr>) = wellIndented st"
  "wellIndented (st\<lparr>statementStart := b\<rparr>) = wellIndented st"
  "wellIndented (st\<lparr>parenStack := ps\<rparr>) = wellIndented st"
  "wellIndented (st\<lparr>prevMeaningful := p\<rparr>) = wellIndented st"
  "wellIndented (st\<lparr>ddlContext := b\<rparr>) = wellIndented st"
  "wellIndented (st\<lparr>blockParenPending := b\<rparr>) = wellIndented st"
  "wellIndented (st\<lparr>functionContext := b\<rparr>) = wellIndented st"
  "wellIndented (st\<lparr>afterBlockClose := b\<rparr>) = wellIndented st"
  "wellIndented (st\<lparr>needNewlineBeforeFirstColumn := b\<rparr>) = wellIndented st"
  by (simp_all add: wellIndented_def)

lemma handleComment_ok:
  "wellIndented st \<Longrightarrow> okOr opts (handleComment CK opts token rest st) wellIndented"
  unfolding handleComment_def Let_def
  by (rule okOr_andThen [where P = "\<lambda>s. True"]) (simp_all add: okOr_commentIndent)

lemma trackDdl_ok [simp]: "wellIndented (trackDdl token st) = wellIndented st"
  by (simp add: trackDdl_def Let_def)

lemma handleSemicolon_ok: "wellIndented (handleSemicolon token st)"
  by (simp add: handleSemicolon_def wellIndented_def push_def)

lemma parenLineStart_ok:
  "wellIndented st \<Longrightarrow> okOr opts (parenLineStart opts st) (\<lambda>s. wellIndented s \<and> indentLevel s = indentLevel st)"
  unfolding parenLineStart_def
  by (rule okOr_andThen [where P = "\<lambda>s. True"]) (simp_all add: okOr_indent okOr_indentPlus push_def)

lemma handleOpenParen_ok:
  "wellIndented st \<Longrightarrow> okOr opts (handleOpenParen CK opts token rest st) wellIndented"
  unfolding handleOpenParen_def Let_def
  apply (intro okOr_if)
  apply (rule okOr_andThen [where P = "\<lambda>s. True"])
  apply (simp add: okOr_indentPlus)
  apply (simp add: wellIndented_def push_def)
  apply (rule okOr_andThen [where P = "wellIndented"])
  apply (simp add: parenLineStart_ok [THEN okOr_weaken])
  apply (simp add: wellIndented_def push_def)
  apply (rule okOr_andThen [where P = "wellIndented"])
  apply (simp add: parenLineStart_ok [THEN okOr_weaken])
  apply (simp add: wellIndented_def push_def)
  done


lemma handleCloseParen_ok:
  "wellIndented st \<Longrightarrow> okOr opts (handleCloseParen opts token st) wellIndented"
  unfolding handleCloseParen_def Let_def
  apply (intro okOr_if)
  apply (rule okOr_andThen [where P = "\<lambda>s. True"])
  apply (rule okOr_indent)
  apply (simp_all add: wellIndented_def push_def)
  done

lemma handleCase_ok:
  "wellIndented st \<Longrightarrow> okOr opts (handleCase opts token st) wellIndented"
  unfolding handleCase_def Let_def
  apply (rule okOr_andThen [where P = "\<lambda>s. True"])
  apply (rule okOr_caseIndent)
  apply (simp_all add: wellIndented_def push_def)
  done

lemma handleWhenElse_ok:
  "wellIndented st \<Longrightarrow> okOr opts (handleWhenElse opts token st) wellIndented"
  unfolding handleWhenElse_def Let_def
  apply (rule okOr_andThen [where P = "\<lambda>s. True"])
  apply (rule okOr_indentPlus)
  apply simp_all
  done

lemma handleEnd_ok:
  "wellIndented st \<Longrightarrow> caseStack st \<noteq> [] \<Longrightarrow> okOr opts (handleEnd opts token st) wellIndented"
  unfolding handleEnd_def Let_def
  apply (rule okOr_andThen [where P = "\<lambda>s. True"])
  apply (rule okOr_indent)
  apply simp
  apply (cases "caseStack st")
  apply (simp_all add: wellIndented_def push_def)
  done

lemma handleCommentKeyword_ok:
  "wellIndented st \<Longrightarrow> okOr opts (handleCommentKeyword opts token st) wellIndented"
  unfolding handleCommentKeyword_def Let_def
  apply (rule okOr_andThen [where P = "\<lambda>s. True"])
  apply (rule okOr_indent)
  apply simp_all
  done

lemma handleClauseKeyword_ok:
  "wellIndented st \<Longrightarrow> okOr opts (handleClauseKeyword CK opts token rest st) wellIndented"
  unfolding handleClauseKeyword_def Let_def
  apply (rule okOr_andThen [where P = "\<lambda>s. True"])
  apply (rule okOr_if)
  apply (rule okOr_repeatSpace)
  apply simp
  apply simp
  apply (rule okOr_andThen [where P = "\<lambda>s. True"])
  apply (rule okOr_indent)
  apply simp_all
  done

lemma handleComma_ok:
  "wellIndented st \<Longrightarrow> okOr opts (handleComma opts token st) wellIndented"
  unfolding handleComma_def
  apply (rule okOr_andThen [where P = "wellIndented"])
  apply (intro okOr_if)
  apply simp
  apply simp
  apply (rule okOr_andThen [where P = "\<lambda>s. True"])
  apply (rule okOr_indent)
  apply simp_all
  done

lemma handleDollarQuoted_ok:
  "wellIndented st \<Longrightarrow> okOr opts (handleDollarQuoted opts token st) wellIndented"
  unfolding handleDollarQuoted_def
  apply (rule okOr_andThen [where P = "wellIndented"])
  apply (intro okOr_if)
  apply simp
  apply simp
  apply simp
  apply (rule okOr_andThen [where P = "\<lambda>s. True"])
  apply (rule okOr_contentIndent)
  apply simp_all
  done

lemma handleDefault_ok:
  "wellIndented st \<Longrightarrow> okOr opts (handleDefault opts token st) wellIndented"
  unfolding handleDefault_def Let_def
  apply (rule okOr_andThen [where P = "wellIndented"])
  apply (intro okOr_if)
  apply simp
  apply simp
  apply (rule okOr_andThen [where P = "\<lambda>s. True"])
  apply (rule okOr_contentIndent)
  apply simp_all
  done

lemma handleToken_ok:
  "wellIndented st \<Longrightarrow> okOr opts (handleToken CK opts token rest st) wellIndented"
  unfolding handleToken_def
  by (intro okOr_if)
    (simp_all add: handleSemicolon_ok handleOpenParen_ok handleCloseParen_ok handleCase_ok
      handleWhenElse_ok handleEnd_ok handleCommentKeyword_ok handleClauseKeyword_ok
      handleComma_ok handleDollarQuoted_ok handleDefault_ok handleDot_def handleAfterDot_def)

lemma iteration_ok:
  "wellIndented st \<Longrightarrow>
     okOr opts (iteration CK opts token rest st) (\<lambda>r. case r of None \<Rightarrow> True | Some st1 \<Rightarrow> wellIndented st1)"
  unfolding iteration_def
  apply (intro okOr_if)
  apply simp
  apply (rule okOr_andThen [where P = "wellIndented"])
  apply (rule handleComment_ok)
  apply simp
  apply simp
  apply simp
  apply (rule okOr_andThen [where P = "wellIndented"])
  apply (rule handleToken_ok)
  apply simp_all
  done


lemma engineStates_wellIndented:
  "wellIndented st \<Longrightarrow> list_all wellIndented (engineStates CK opts toks st)"
proof (induction toks arbitrary: st)
  case Nil
  then show ?case by simp
next
  case (Cons token rest)
  from iteration_ok [OF Cons.prems, of opts CK token rest] Cons show ?case
    by (auto simp: okOr_def split: sum.splits option.splits)
qed

lemma wellIndented_initialState: "wellIndented initialState"
  by (simp add: wellIndented_def initialState_def)

lemma engineStates_nonempty: "engineStates CK opts toks st \<noteq> []"
  by (cases toks) simp_all

lemma formatLoop_last:
  "formatLoop CK opts toks st = Inr st' \<Longrightarrow> st' = last (engineStates CK opts toks st)"
  by (induction toks arbitrary: st)
    (auto simp: engineStates_nonempty split: sum.splits option.splits)

text \<open>
  The inputs that a lexer or an engine could reject are handled without an error: a close
  paren on an empty paren stack is emitted as a grouping close, an unterminated string or
  block comment runs to the end of the input, and a character that starts no other token
  becomes a one-character operator token.
\<close>

lemma closeParen_on_empty_stack:
  "parenStack st = [] \<Longrightarrow>
     handleCloseParen opts token st
       = Inr (st\<lparr>result := result st @ ['')''], afterBlockClose := False, lineStart := False,
                prevMeaningful := Some token\<rparr>)"
  by (simp add: handleCloseParen_def push_def)

lemma unterminated_string: "CHR 0x27 \<notin> set s \<Longrightarrow> stringBody s = (s, [])"
  by (induction s) auto

lemma unterminated_blockComment: "CHR ''*'' \<notin> set s \<Longrightarrow> blockCommentBody s = (s, [])"
  by (induction s) auto

lemma unrecognized_character:
  "nextToken K CHR ''?'' rest = (mkToken Operator ''?'', rest)"
  by (simp add: nextToken_def startsNumber_def isDigit_def twoCharOperators_def
      singleCharOperators_def isLetterOrUnderscore_def lowerLetters_def upperLetters_def)




text \<open>
  C9.  In every run of the engine, on the merged tokens of any input and with any options, the
  indent level is non-negative in the state before the first iteration and in the state
  after every iteration.
\<close>

theorem indentLevel_nonneg:
  "\<forall>st \<in> set (engineStates CK opts (mergedTokens K input) initialState). 0 \<le> indentLevel st"
  using engineStates_wellIndented [OF wellIndented_initialState, of CK opts "mergedTokens K input"]
  by (simp add: list_all_iff wellIndented_def)


text \<open>
  The engine has states on an input with more close parens than open parens, and the indent
  level of the last one is non-negative.
\<close>

theorem indentLevel_nonneg_witness:
  "last (engineStates specCLAUSE_KEYWORDS DEFAULT_OPTIONS
           (mergedTokens specKEYWORDS ''(select 1)))'') initialState)
     \<in> set (engineStates specCLAUSE_KEYWORDS DEFAULT_OPTIONS
           (mergedTokens specKEYWORDS ''(select 1)))'') initialState)
   \<and> 0 \<le> indentLevel (last (engineStates specCLAUSE_KEYWORDS DEFAULT_OPTIONS
           (mergedTokens specKEYWORDS ''(select 1)))'') initialState))"
proof -
  let ?sts = "engineStates specCLAUSE_KEYWORDS DEFAULT_OPTIONS
    (mergedTokens specKEYWORDS ''(select 1)))'') initialState"
  have mem: "last ?sts \<in> set ?sts"
    by (rule last_in_set) (rule engineStates_nonempty)
  with indentLevel_nonneg [of specCLAUSE_KEYWORDS DEFAULT_OPTIONS specKEYWORDS "''(select 1)))''"]
  show ?thesis
    by blast
qed

section \<open>The result string\<close>














section \<open>A concrete scenario\<close>

lemmas lexer_eval = tokenize_def nextToken_def wordToken_def mkToken_def
  toUpperCase_def upperChar_def lowerLetters_def upperLetters_def
  isLetterOrUnderscore_def isWordChar_def isDigit_def startsNumber_def
  twoCharOperators_def singleCharOperators_def isSpaceTab_def numberText_def exponentPart_def
  isDigitOrDot_def

lemmas engine_eval = iteration_def handleToken_def handleDefault_def handleComma_def
  handleClauseKeyword_def trackDdl_def push_def andThen_def indent_def indentPlus_def
  repeatSpace_def contentIndent_def topParen_def prevType_def applyCase_def
  countSelectColumns_def initialState_def DEFAULT_OPTIONS_def

definition basicSelect :: "Token list" where
  "basicSelect =
    [\<lparr>type = Keyword, value = ''SELECT'', original = Some ''select''\<rparr>,
     mkToken Whitespace '' '', mkToken Identifier ''a'', mkToken Comma '','',
     mkToken Whitespace '' '', mkToken Identifier ''b'', mkToken Comma '','',
     mkToken Whitespace '' '', mkToken Identifier ''c'', mkToken Whitespace '' '',
     \<lparr>type = Keyword, value = ''FROM'', original = Some ''from''\<rparr>,
     mkToken Whitespace '' '', mkToken Identifier ''my_table'', mkToken Whitespace '' '',
     \<lparr>type = Keyword, value = ''WHERE'', original = Some ''where''\<rparr>,
     mkToken Whitespace '' '', mkToken Identifier ''x'', mkToken Whitespace '' '',
     mkToken Operator ''='', mkToken Whitespace '' '', mkToken Number ''1'', mkToken EOF []]"

lemma basicSelect_tokens:
  assumes "{''SELECT'', ''FROM'', ''WHERE''} \<subseteq> K"
    and "K \<inter> {''A'', ''B'', ''C'', ''MY_TABLE'', ''X''} = {}"
  shows "tokenize K ''select a, b, c from my_table where x = 1'' = basicSelect"
proof -
  from assms have "''SELECT'' \<in> K" "''FROM'' \<in> K" "''WHERE'' \<in> K"
    "''A'' \<notin> K" "''B'' \<notin> K" "''C'' \<notin> K" "''MY_TABLE'' \<notin> K" "''X'' \<notin> K"
    by auto
  then show ?thesis
    by (simp add: lexer_eval basicSelect_def)
qed

lemma basicSelect_merged:
  "mergeUnquotedLanguageBody (mergeClauseKeywords basicSelect) = basicSelect"
  by (simp add: basicSelect_def mkToken_def mergeables_def)

lemma basicSelect_formatted:
  assumes "{''SELECT'', ''FROM'', ''WHERE''} \<subseteq> CK"
  shows "\<exists>st. formatLoop CK DEFAULT_OPTIONS basicSelect initialState = Inr st \<and>
     concat (result st) = ''SELECT\<newline>  a,\<newline>  b,\<newline>  c\<newline>FROM my_table\<newline>WHERE x = 1''"
proof -
  from assms have "''SELECT'' \<in> CK" "''FROM'' \<in> CK" "''WHERE'' \<in> CK"
    by auto
  then show ?thesis
    by (simp add: basicSelect_def mkToken_def engine_eval toUpperCase_def upperChar_def
        lowerLetters_def upperLetters_def eval_nat_numeral)
qed

text \<open>
  C5.  With the default options, and with keyword tables in which \<open>SELECT\<close>, \<open>FROM\<close> and
  \<open>WHERE\<close> are keywords and clause keywords and \<open>A\<close>, \<open>B\<close>, \<open>C\<close>, \<open>MY_TABLE\<close> and \<open>X\<close>
  are not keywords, \<open>formatDatabricksSQL\<close> applied to
  \<open>select a, b, c from my_table where x = 1\<close> returns \<open>SELECT\<close>, the three columns on
  lines of their own, indented by two spaces and with trailing commas, then \<open>FROM my_table\<close>
  and \<open>WHERE x = 1\<close> on lines of their own at column 0, and a final line feed.
\<close>

theorem basic_select_scenario:
  assumes "{''SELECT'', ''FROM'', ''WHERE''} \<subseteq> KEYWORDS"
    and "KEYWORDS \<inter> {''A'', ''B'', ''C'', ''MY_TABLE'', ''X''} = {}"
    and "{''SELECT'', ''FROM'', ''WHERE''} \<subseteq> CLAUSE_KEYWORDS"
  shows "formatDatabricksSQL KEYWORDS CLAUSE_KEYWORDS DEFAULT_OPTIONS
           ''select a, b, c from my_table where x = 1''
         = Inr ''SELECT\<newline>  a,\<newline>  b,\<newline>  c\<newline>FROM my_table\<newline>WHERE x = 1\<newline>''"
proof -
  from basicSelect_formatted [OF assms(3)] obtain st
    where st: "formatLoop CLAUSE_KEYWORDS DEFAULT_OPTIONS basicSelect initialState = Inr st"
      and out: "concat (result st)
        = ''SELECT\<newline>  a,\<newline>  b,\<newline>  c\<newline>FROM my_table\<newline>WHERE x = 1''"
    by blast
  have "mergedTokens KEYWORDS ''select a, b, c from my_table where x = 1'' = basicSelect"
    by (simp only: mergedTokens_def basicSelect_tokens [OF assms(1,2)] basicSelect_merged)
  then show ?thesis
    by (simp add: formatDatabricksSQL_def andThen_def st out trim_def trimEnd_def isJsSpace_def)
qed

text \<open>The tables that hold the keywords named by the specification satisfy the hypotheses.\<close>

theorem basic_select_scenario_witness:
  "{''SELECT'', ''FROM'', ''WHERE''} \<subseteq> specKEYWORDS
   \<and> specKEYWORDS \<inter> {''A'', ''B'', ''C'', ''MY_TABLE'', ''X''} = {}
   \<and> {''SELECT'', ''FROM'', ''WHERE''} \<subseteq> specCLAUSE_KEYWORDS
   \<and> formatDatabricksSQL specKEYWORDS specCLAUSE_KEYWORDS DEFAULT_OPTIONS
        ''select a, b, c from my_table where x = 1''
      = Inr ''SELECT\<newline>  a,\<newline>  b,\<newline>  c\<newline>FROM my_table\<newline>WHERE x = 1\<newline>''"
proof -
  have k: "{''SELECT'', ''FROM'', ''WHERE''} \<subseteq> specKEYWORDS"
    by (simp add: specKEYWORDS_def)
  have n: "specKEYWORDS \<inter> {''A'', ''B'', ''C'', ''MY_TABLE'', ''X''} = {}"
    by (simp add: specKEYWORDS_def)
  have c: "{''SELECT'', ''FROM'', ''WHERE''} \<subseteq> specCLAUSE_KEYWORDS"
    by (simp add: specCLAUSE_KEYWORDS_def)
  from basic_select_scenario [OF k n c] k n c show ?thesis
    by blast
qed

section \<open>Where the code departs from its description\<close>

text \<open>
  What the semicolon handler does to the state: it resets the indent level, the flags and
  the CASE stack, pushes \<open>;\<close> and a blank line, and leaves the paren stack as it was.
\<close>

lemma handleSemicolon_resets:
  "indentLevel (handleSemicolon token st) = 0
   \<and> lineStart (handleSemicolon token st) \<and> statementStart (handleSemicolon token st)
   \<and> \<not> ddlContext (handleSemicolon token st) \<and> \<not> blockParenPending (handleSemicolon token st)
   \<and> \<not> functionContext (handleSemicolon token st) \<and> \<not> afterBlockClose (handleSemicolon token st)
   \<and> \<not> needNewlineBeforeFirstColumn (handleSemicolon token st)
   \<and> caseStack (handleSemicolon token st) = []
   \<and> result (handleSemicolon token st) = result st @ ['';\<newline>\<newline>'']
   \<and> parenStack (handleSemicolon token st) = parenStack st"
  by (simp add: handleSemicolon_def push_def)

text \<open>
  C3.  The semicolon handler does not empty the paren stack: after \<open>(;\<close> the stack still
  holds the grouping paren.  So a statement that follows an unclosed paren is not formatted
  on its own: in \<open>select (a; select b, c\<close> the comma of the second statement is taken to be
  inside the paren of the first and stays inline, while \<open>select b, c\<close> alone gets one
  column per line.
\<close>

theorem semicolon_keeps_parenStack:
  "map parenStack (engineStates specCLAUSE_KEYWORDS DEFAULT_OPTIONS
      (mergedTokens specKEYWORDS ''(;'') initialState) = [[], [grouping], [grouping]]
   \<and> formatDatabricksSQL specKEYWORDS specCLAUSE_KEYWORDS DEFAULT_OPTIONS
        ''select (a; select b, c'' = Inr ''SELECT (a;\<newline>\<newline>SELECT\<newline>  b, c\<newline>''
   \<and> formatDatabricksSQL specKEYWORDS specCLAUSE_KEYWORDS DEFAULT_OPTIONS
        ''select b, c'' = Inr ''SELECT\<newline>  b,\<newline>  c\<newline>''"
  by code_simp

text \<open>
  C7.  With \<open>keywordCase = preserve\<close> a merged compound keyword is rendered as the original
  text of its first word only: the merged token's \<open>original\<close> is that of the first keyword,
  so \<open>group by\<close> comes out as \<open>group\<close>.
\<close>

theorem preserve_drops_merged_suffix:
  "formatDatabricksSQL specKEYWORDS specCLAUSE_KEYWORDS
     (DEFAULT_OPTIONS\<lparr>keywordCase := Preserve\<rparr>) ''select a from t group by a''
   = Inr ''select a\<newline>from t\<newline>group a\<newline>''"
  by code_simp


end
